theory Spec2Isabelle
  imports Main
begin

section \<open>Tokens and the tokenizer (src/lexer/index.ts)\<close>

text \<open>
  A JavaScript string is a sequence of UTF-16 code units. The model covers the strings all
  of whose code units are below 256 and writes such a code unit as a \<^typ>\<open>char\<close>; on
  these strings every code point is one code unit.

  The enum \<open>TokenType\<close>. The last constructor is not a member of the source's enum: the
  keyword table of \<open>readIdentifier\<close> is a plain object, so looking up \<open>constructor\<close> or
  \<open>__proto__\<close> finds a member of \<open>Object.prototype\<close>, which is truthy and becomes the
  token's type. Such a type is different from every member of the enum.
\<close>

datatype TokenType =
    GRAPH | FLOWCHART | SEQUENCE_DIAGRAM | CLASS_DIAGRAM | STATE_DIAGRAM | STATE_DIAGRAM_V2
  | ER_DIAGRAM | JOURNEY | GANTT | PIE | GITGRAPH | MINDMAP | TIMELINE | XYCHART_BETA
  | BLOCK_BETA
  | ARROW | DOTTED_ARROW | THICK_ARROW | SUBGRAPH | SUBGRAPH_END
  | PARTICIPANT | ACTIVATION | DEACTIVATION | NOTE | SEQUENCE_ARROW
  | IDENTIFIER | STRING | NUMBER | BRACKET_OPEN | BRACKET_CLOSE | PAREN_OPEN | PAREN_CLOSE
  | DOUBLE_PAREN_OPEN | DOUBLE_PAREN_CLOSE | BRACE_OPEN | BRACE_CLOSE | COMMA | SEMICOLON
  | COLON | PIPE | EQUALS | NEWLINE | WHITESPACE | COMMENT | DIRECTIVE | EOF
  | PROTOTYPE_MEMBER

record Token =
  ttype :: TokenType
  tvalue :: string
  tline :: nat
  tcolumn :: nat
  tposition :: nat

text \<open>The fields of the class \<open>Lexer\<close>: the input and the cursor.\<close>

record Lexer =
  input :: string
  lposition :: nat
  lline :: nat
  lcolumn :: nat

text \<open>The character classes the source tests with regular expressions.\<close>

definition isSpace :: "char \<Rightarrow> bool" where
  \<comment> \<open>\<open>/\s/\<close> on a code unit below 256: tab, line feed, vertical tab, form feed, carriage
      return, space, no-break space.\<close>
  "isSpace c = (c \<in> set [CHR 0x09, CHR 0x0A, CHR 0x0B, CHR 0x0C, CHR 0x0D, CHR 0x20, CHR 0xA0])"

definition isDigit :: "char \<Rightarrow> bool" where
  \<comment> \<open>\<open>/\d/\<close>\<close>
  "isDigit c = (let n = (of_char c :: nat) in 48 \<le> n \<and> n \<le> 57)"

definition isAlpha :: "char \<Rightarrow> bool" where
  \<comment> \<open>\<open>/[a-zA-Z]/\<close>\<close>
  "isAlpha c = (let n = (of_char c :: nat) in (65 \<le> n \<and> n \<le> 90) \<or> (97 \<le> n \<and> n \<le> 122))"

definition isIdentStart :: "char \<Rightarrow> bool" where
  \<comment> \<open>\<open>/[a-zA-Z_]/\<close>\<close>
  "isIdentStart c = (isAlpha c \<or> c = CHR ''_'')"

definition isIdentPart :: "char \<Rightarrow> bool" where
  \<comment> \<open>\<open>/[a-zA-Z0-9_'-]/\<close>\<close>
  "isIdentPart c = (isAlpha c \<or> isDigit c \<or> c = CHR ''_'' \<or> c = CHR 0x27 \<or> c = CHR ''-'')"

definition toLowerCase_char :: "char \<Rightarrow> char" where
  "toLowerCase_char c =
     (let n = (of_char c :: nat)
      in if (65 \<le> n \<and> n \<le> 90) \<or> (192 \<le> n \<and> n \<le> 222 \<and> n \<noteq> 215) then char_of (n + 32) else c)"

definition toLowerCase :: "string \<Rightarrow> string" where
  "toLowerCase s = map toLowerCase_char s"

definition slice :: "string \<Rightarrow> nat \<Rightarrow> nat \<Rightarrow> string" where
  \<comment> \<open>\<open>s.slice(a, b)\<close> for \<open>0 \<le> a\<close>, \<open>0 \<le> b\<close>\<close>
  "slice s a b = take (b - a) (drop a s)"

definition charIs :: "Lexer \<Rightarrow> nat \<Rightarrow> char \<Rightarrow> bool" where
  \<comment> \<open>\<open>this.position + k < this.input.length && this.input[this.position + k] === c\<close>\<close>
  "charIs lx k c = (lposition lx + k < length (input lx) \<and> input lx ! (lposition lx + k) = c)"

definition step :: "Lexer \<Rightarrow> nat \<Rightarrow> Lexer" where
  \<comment> \<open>\<open>this.position += k; this.column += k\<close>\<close>
  "step lx k = lx\<lparr>lposition := lposition lx + k, lcolumn := lcolumn lx + k\<rparr>"

definition stepLine :: "Lexer \<Rightarrow> Lexer" where
  \<comment> \<open>\<open>this.line++; this.column = 1; this.position++\<close>\<close>
  "stepLine lx = lx\<lparr>lposition := lposition lx + 1, lline := lline lx + 1, lcolumn := 1\<rparr>"

subsection \<open>readComment\<close>

function readComment_loop :: "Lexer \<Rightarrow> Lexer" where
  "readComment_loop lx =
     (if lposition lx < length (input lx) \<and> input lx ! lposition lx \<noteq> CHR 0x0A
      then readComment_loop (step lx 1) else lx)"
  by pat_completeness auto
termination
  by (relation "measure (\<lambda>lx. length (input lx) - lposition lx)") (auto simp: step_def)

declare readComment_loop.simps [simp del]

definition readComment :: "Lexer \<Rightarrow> Token \<times> Lexer" where
  "readComment lx =
     (let start = lposition lx; startLine = lline lx; startColumn = lcolumn lx;
          lx1 = readComment_loop (step lx 2);
          lx2 = (if charIs lx1 0 (CHR 0x0A) then stepLine lx1 else lx1)
      in (\<lparr>ttype = COMMENT, tvalue = slice (input lx) start (lposition lx2),
           tline = startLine, tcolumn = startColumn, tposition = start\<rparr>, lx2))"

subsection \<open>readDirective\<close>

function readDirective_loop :: "Lexer \<Rightarrow> nat \<Rightarrow> Lexer" where
  "readDirective_loop lx braceCount =
     (if lposition lx < length (input lx) \<and> braceCount > 0
      then let c = input lx ! lposition lx
           in if c = CHR ''{'' then readDirective_loop (lx\<lparr>lposition := lposition lx + 1\<rparr>) (braceCount + 1)
              else if c = CHR ''}'' then readDirective_loop (lx\<lparr>lposition := lposition lx + 1\<rparr>) (braceCount - 1)
              else if c = CHR 0x0A then readDirective_loop (stepLine lx) braceCount
              else readDirective_loop (step lx 1) braceCount
      else lx)"
  by pat_completeness auto
termination
  by (relation "measure (\<lambda>(lx, n). length (input lx) - lposition lx)")
     (auto simp: step_def stepLine_def)

declare readDirective_loop.simps [simp del]

definition readDirective :: "Lexer \<Rightarrow> Token \<times> Lexer" where
  "readDirective lx =
     (let start = lposition lx;
          lx1 = readDirective_loop (step lx 3) 1;
          lx2 = (if lposition lx1 + 1 < length (input lx1) \<and> input lx1 ! lposition lx1 = CHR ''%''
                    \<and> input lx1 ! (lposition lx1 + 1) = CHR ''%''
                 then step lx1 2 else lx1)
      in (\<lparr>ttype = DIRECTIVE, tvalue = slice (input lx) start (lposition lx2),
           tline = lline lx2, tcolumn = lcolumn lx2, tposition = start\<rparr>, lx2))"

subsection \<open>readString\<close>

function readString_loop :: "char \<Rightarrow> Lexer \<Rightarrow> Lexer" where
  "readString_loop quote lx =
     (if lposition lx < length (input lx) \<and> input lx ! lposition lx \<noteq> quote
      then readString_loop quote (if input lx ! lposition lx = CHR 0x0A then stepLine lx else step lx 1)
      else lx)"
  by pat_completeness auto
termination
  by (relation "measure (\<lambda>(q, lx). length (input lx) - lposition lx)")
     (auto simp: step_def stepLine_def)

declare readString_loop.simps [simp del]

definition readString :: "Lexer \<Rightarrow> Token \<times> Lexer" where
  "readString lx =
     (let quote = input lx ! lposition lx; start = lposition lx;
          lx1 = readString_loop quote (step lx 1);
          lx2 = (if lposition lx1 < length (input lx1) then step lx1 1 else lx1)
      in (\<lparr>ttype = STRING, tvalue = slice (input lx) start (lposition lx2),
           tline = lline lx2, tcolumn = lcolumn lx2, tposition = start\<rparr>, lx2))"

subsection \<open>readNumber\<close>

function readNumber_loop :: "Lexer \<Rightarrow> Lexer" where
  "readNumber_loop lx =
     (if lposition lx < length (input lx) \<and> isDigit (input lx ! lposition lx)
      then readNumber_loop (step lx 1) else lx)"
  by pat_completeness auto
termination
  by (relation "measure (\<lambda>lx. length (input lx) - lposition lx)") (auto simp: step_def)

declare readNumber_loop.simps [simp del]

definition readNumber :: "Lexer \<Rightarrow> Token \<times> Lexer" where
  "readNumber lx =
     (let start = lposition lx; lx1 = readNumber_loop lx
      in (\<lparr>ttype = NUMBER, tvalue = slice (input lx) start (lposition lx1),
           tline = lline lx1, tcolumn = lcolumn lx1, tposition = start\<rparr>, lx1))"

subsection \<open>readIdentifier\<close>

function readIdentifier_loop :: "Lexer \<Rightarrow> Lexer" where
  "readIdentifier_loop lx =
     (if lposition lx < length (input lx) \<and> isIdentPart (input lx ! lposition lx)
      then if input lx ! lposition lx = CHR ''-'' \<and> charIs lx 1 (CHR ''>'') then lx
           else if input lx ! lposition lx = CHR ''-'' \<and> lposition lx + 2 < length (input lx)
                   \<and> input lx ! (lposition lx + 1) = CHR ''-'' \<and> input lx ! (lposition lx + 2) = CHR ''>''
                then lx
           else readIdentifier_loop (step lx 1)
      else lx)"
  by pat_completeness auto
termination
  by (relation "measure (\<lambda>lx. length (input lx) - lposition lx)") (auto simp: step_def)

declare readIdentifier_loop.simps [simp del]

definition keywordTable :: "(string \<times> TokenType) list" where
  \<comment> \<open>the object \<open>keywords\<close> of \<open>readIdentifier\<close>, with the two members of \<open>Object.prototype\<close>
      whose names are lower-case identifiers\<close>
  "keywordTable =
     [(''graph'', GRAPH), (''flowchart'', FLOWCHART), (''sequencediagram'', SEQUENCE_DIAGRAM),
      (''classdiagram'', CLASS_DIAGRAM), (''statediagram'', STATE_DIAGRAM),
      (''statediagram-v2'', STATE_DIAGRAM_V2), (''erdiagram'', ER_DIAGRAM),
      (''journey'', JOURNEY), (''gantt'', GANTT), (''pie'', PIE), (''gitgraph'', GITGRAPH),
      (''mindmap'', MINDMAP), (''timeline'', TIMELINE), (''xychart-beta'', XYCHART_BETA),
      (''block-beta'', BLOCK_BETA), (''participant'', PARTICIPANT), (''activate'', ACTIVATION),
      (''deactivate'', DEACTIVATION), (''note'', IDENTIFIER), (''subgraph'', SUBGRAPH),
      (''classdef'', IDENTIFIER), (''class'', IDENTIFIER), (''linkstyle'', IDENTIFIER),
      (''style'', IDENTIFIER),
      (''constructor'', PROTOTYPE_MEMBER), (''__proto__'', PROTOTYPE_MEMBER)]"

definition keywordType :: "string \<Rightarrow> TokenType" where
  \<comment> \<open>\<open>keywords[value.toLowerCase()] || TokenType.IDENTIFIER\<close>\<close>
  "keywordType v = (case map_of keywordTable (toLowerCase v) of Some t \<Rightarrow> t | None \<Rightarrow> IDENTIFIER)"

definition readIdentifier :: "Lexer \<Rightarrow> Token \<times> Lexer" where
  "readIdentifier lx =
     (let start = lposition lx; lx1 = readIdentifier_loop lx;
          v = slice (input lx) start (lposition lx1)
      in (\<lparr>ttype = keywordType v, tvalue = v,
           tline = lline lx1, tcolumn = lcolumn lx1, tposition = start\<rparr>, lx1))"

subsection \<open>nextToken and tokenize\<close>

definition singleCharTokens :: "(char \<times> TokenType) list" where
  "singleCharTokens =
     [(CHR ''['', BRACKET_OPEN), (CHR '']'', BRACKET_CLOSE), (CHR ''('', PAREN_OPEN),
      (CHR '')'', PAREN_CLOSE), (CHR ''{'', BRACE_OPEN), (CHR ''}'', BRACE_CLOSE),
      (CHR '','', COMMA), (CHR '';'', SEMICOLON), (CHR '':'', COLON), (CHR ''|'', PIPE)]"

definition tokenHere :: "Lexer \<Rightarrow> TokenType \<Rightarrow> string \<Rightarrow> Token" where
  \<comment> \<open>a token that starts at the cursor\<close>
  "tokenHere lx t v =
     \<lparr>ttype = t, tvalue = v, tline = lline lx, tcolumn = lcolumn lx, tposition = lposition lx\<rparr>"

definition arrowToken :: "Lexer \<Rightarrow> TokenType \<Rightarrow> string \<Rightarrow> Token \<times> Lexer" where
  \<comment> \<open>the cursor moves over the arrow; the token's column is
      \<open>this.column - arrowValue.length + 1\<close> and its position
      \<open>this.position - arrowValue.length\<close>, both read after the move\<close>
  "arrowToken lx t v =
     (let lx1 = step lx (length v)
      in (\<lparr>ttype = t, tvalue = v, tline = lline lx1, tcolumn = lcolumn lx1 - length v + 1,
           tposition = lposition lx1 - length v\<rparr>, lx1))"

definition scanToken :: "Lexer \<Rightarrow> Token \<times> Lexer" where
  \<comment> \<open>the body of \<open>nextToken\<close> at a character that is not white space\<close>
  "scanToken lx =
     (let c = input lx ! lposition lx
      in if c = CHR ''%'' \<and> charIs lx 1 (CHR ''%'') then
           (if charIs lx 2 (CHR ''{'') then readDirective lx else readComment lx)
         else if c = CHR ''('' \<and> charIs lx 1 (CHR ''('') then
           (let lx1 = step lx 2
            in (\<lparr>ttype = DOUBLE_PAREN_OPEN, tvalue = ''(('', tline = lline lx1,
                 tcolumn = lcolumn lx1 - 2, tposition = lposition lx1 - 2\<rparr>, lx1))
         else if c = CHR '')'' \<and> charIs lx 1 (CHR '')'') then
           (let lx1 = step lx 2
            in (\<lparr>ttype = DOUBLE_PAREN_CLOSE, tvalue = ''))'', tline = lline lx1,
                 tcolumn = lcolumn lx1 - 2, tposition = lposition lx1 - 2\<rparr>, lx1))
         else if c = CHR ''='' then
           (if lposition lx + 2 < length (input lx) \<and> input lx ! (lposition lx + 1) = CHR ''=''
               \<and> input lx ! (lposition lx + 2) = CHR ''>'' then
              (if charIs lx 3 (CHR ''>'') then (tokenHere lx EQUALS [c], step lx 1)
               else arrowToken lx THICK_ARROW ''==>'')
            else (tokenHere lx EQUALS [c], step lx 1))
         else case map_of singleCharTokens c of
           Some t \<Rightarrow> (tokenHere lx t [c], step lx 1)
         | None \<Rightarrow>
           if c = CHR ''-'' \<and> lposition lx + 3 < length (input lx)
              \<and> input lx ! (lposition lx + 1) = CHR ''.'' \<and> input lx ! (lposition lx + 2) = CHR ''-''
              \<and> input lx ! (lposition lx + 3) = CHR ''>'' then
             (if charIs lx 4 (CHR ''>'') then arrowToken lx DOTTED_ARROW ''-.->>''
              else arrowToken lx DOTTED_ARROW ''-.->'')
           else if c = CHR ''-'' \<and> lposition lx + 2 < length (input lx)
              \<and> input lx ! (lposition lx + 1) = CHR ''-'' \<and> input lx ! (lposition lx + 2) = CHR ''>'' then
             (if charIs lx 3 (CHR ''>'') then arrowToken lx ARROW ''-->>''
              else arrowToken lx ARROW ''-->'')
           else if c = CHR ''-'' \<and> charIs lx 1 (CHR ''>'') then
             (if charIs lx 2 (CHR ''>'') then arrowToken lx SEQUENCE_ARROW ''->>''
              else arrowToken lx SEQUENCE_ARROW ''->'')
           else if c = CHR 0x22 \<or> c = CHR 0x27 then readString lx
           else if isDigit c then readNumber lx
           else if isIdentStart c then readIdentifier lx
           else (tokenHere lx IDENTIFIER [c], step lx 1))"

function nextToken :: "Lexer \<Rightarrow> Token option \<times> Lexer" where
  "nextToken lx =
     (if lposition lx \<ge> length (input lx) then (None, lx)
      else if isSpace (input lx ! lposition lx) then
        nextToken (if input lx ! lposition lx = CHR 0x0A then stepLine lx else step lx 1)
      else (case scanToken lx of (t, lx1) \<Rightarrow> (Some t, lx1)))"
  by pat_completeness auto
termination
  by (relation "measure (\<lambda>lx. length (input lx) - lposition lx)")
     (auto simp: step_def stepLine_def)

declare nextToken.simps [simp del]

text \<open>Every reader keeps the input and moves the cursor forward; this is what makes the
  loop of \<open>tokenize\<close> terminate.\<close>

lemma readComment_loop_frame:
  "input (readComment_loop lx) = input lx \<and> lposition lx \<le> lposition (readComment_loop lx)"
  by (induction lx rule: readComment_loop.induct)
     (subst (1 2) readComment_loop.simps, auto simp: step_def)

lemma readDirective_loop_frame:
  "input (readDirective_loop lx n) = input lx \<and> lposition lx \<le> lposition (readDirective_loop lx n)"
  by (induction lx n rule: readDirective_loop.induct)
     (subst (1 2) readDirective_loop.simps, auto simp: step_def stepLine_def Let_def)

lemma readString_loop_frame:
  "input (readString_loop q lx) = input lx \<and> lposition lx \<le> lposition (readString_loop q lx)"
  by (induction q lx rule: readString_loop.induct)
     (subst (1 2) readString_loop.simps, auto simp: step_def stepLine_def)

lemma readNumber_loop_frame:
  "input (readNumber_loop lx) = input lx \<and> lposition lx \<le> lposition (readNumber_loop lx)"
  by (induction lx rule: readNumber_loop.induct)
     (subst (1 2) readNumber_loop.simps, auto simp: step_def)

lemma readIdentifier_loop_frame:
  "input (readIdentifier_loop lx) = input lx \<and> lposition lx \<le> lposition (readIdentifier_loop lx)"
  by (induction lx rule: readIdentifier_loop.induct)
     (subst (1 2) readIdentifier_loop.simps, auto simp: step_def)

lemma readComment_frame:
  "input (snd (readComment lx)) = input lx \<and> lposition lx < lposition (snd (readComment lx))"
  using readComment_loop_frame [of "step lx 2"]
  by (simp add: readComment_def Let_def step_def stepLine_def)

lemma readDirective_frame:
  "input (snd (readDirective lx)) = input lx \<and> lposition lx < lposition (snd (readDirective lx))"
  using readDirective_loop_frame [of "step lx 3" 1]
  by (simp add: readDirective_def Let_def step_def)

lemma readString_frame:
  "input (snd (readString lx)) = input lx \<and> lposition lx < lposition (snd (readString lx))"
  using readString_loop_frame [of "input lx ! lposition lx" "step lx 1"]
  by (simp add: readString_def Let_def step_def)

lemma readNumber_frame:
  "lposition lx < length (input lx) \<Longrightarrow> isDigit (input lx ! lposition lx)
     \<Longrightarrow> input (snd (readNumber lx)) = input lx \<and> lposition lx < lposition (snd (readNumber lx))"
  using readNumber_loop_frame [of "step lx 1"]
  by (subst (1 2) readNumber_def, subst (1 2) readNumber_loop.simps)
     (simp add: Let_def step_def)

lemma isIdentStart_Part: "isIdentStart c \<Longrightarrow> isIdentPart c \<and> c \<noteq> CHR ''-''"
  by (auto simp: isIdentStart_def isIdentPart_def isAlpha_def Let_def)

lemma readIdentifier_frame:
  "lposition lx < length (input lx) \<Longrightarrow> isIdentStart (input lx ! lposition lx)
     \<Longrightarrow> input (snd (readIdentifier lx)) = input lx \<and> lposition lx < lposition (snd (readIdentifier lx))"
  using readIdentifier_loop_frame [of "step lx 1"] isIdentStart_Part [of "input lx ! lposition lx"]
  by (subst (1 2) readIdentifier_def, subst (1 2) readIdentifier_loop.simps)
     (simp add: Let_def step_def)

lemma scanToken_frame:
  assumes "lposition lx < length (input lx)"
  shows "input (snd (scanToken lx)) = input lx \<and> lposition lx < lposition (snd (scanToken lx))"
  using assms
  by (simp add: scanToken_def Let_def step_def arrowToken_def
        readComment_frame readDirective_frame readString_frame readNumber_frame readIdentifier_frame
        split: option.split)

lemma nextToken_frame:
  "fst (nextToken lx) \<noteq> None \<Longrightarrow>
     input (snd (nextToken lx)) = input lx \<and> lposition lx < lposition (snd (nextToken lx))
       \<and> lposition lx < length (input lx)"
proof (induction lx rule: nextToken.induct)
  case (1 lx)
  show ?case
  proof (cases "lposition lx \<ge> length (input lx)")
    case True
    with "1.prems" show ?thesis by (simp add: nextToken.simps)
  next
    case False
    show ?thesis
    proof (cases "isSpace (input lx ! lposition lx)")
      case True
      let ?lx' = "if input lx ! lposition lx = CHR 0x0A then stepLine lx else step lx 1"
      have eq: "nextToken lx = nextToken ?lx'"
        using False True by (subst nextToken.simps) simp
      have "input ?lx' = input lx" "lposition lx < lposition ?lx'"
        by (simp_all add: step_def stepLine_def)
      with "1.IH" [OF _ True] "1.prems" False eq show ?thesis by simp
    next
      case nsp: False
      have eq: "nextToken lx = (Some (fst (scanToken lx)), snd (scanToken lx))"
        using False nsp by (subst nextToken.simps) (simp add: case_prod_beta)
      from scanToken_frame [of lx] False eq show ?thesis by simp
    qed
  qed
qed

function tokenize_loop :: "Lexer \<Rightarrow> Token list \<Rightarrow> Token list \<times> Lexer" where
  "tokenize_loop lx tokens =
     (case nextToken lx of
        (None, lx1) \<Rightarrow> (tokens, lx1)
      | (Some token, lx1) \<Rightarrow>
          if ttype token \<noteq> EOF then tokenize_loop lx1 (tokens @ [token]) else (tokens, lx1))"
  by pat_completeness auto
termination
proof (relation "measure (\<lambda>(lx, ts). length (input lx) - lposition lx)", goal_cases)
  case 1
  show ?case by simp
next
  case (2 lx tokens x1 lx1 token)
  from 2 have "nextToken lx = (Some token, lx1)" by simp
  with nextToken_frame [of lx] show ?case by (auto intro: diff_less_mono2)
qed

declare tokenize_loop.simps [simp del]

definition tokenize :: "string \<Rightarrow> Token list" where
  \<comment> \<open>\<open>new Lexer(s).tokenize()\<close>\<close>
  "tokenize s =
     (case tokenize_loop \<lparr>input = s, lposition = 0, lline = 1, lcolumn = 1\<rparr> [] of
        (tokens, lx) \<Rightarrow>
          tokens @ [\<lparr>ttype = EOF, tvalue = [], tline = lline lx, tcolumn = lcolumn lx,
                     tposition = lposition lx\<rparr>])"


section \<open>The syntax tree and the result (src/ast/index.ts)\<close>

datatype Shape = Rect | Round | Diamond | Circle

datatype ArrowType = Solid | Dotted | Thick

text \<open>
  A \<open>FlowchartElement\<close>: a node (line, column, id, label, shape), an arrow (line, column,
  label, to), a subgraph (line, column, id, children), or the object of type
  \<open>'processed'\<close> that \<open>parseFlowchartElement\<close> returns for a statement it has consumed.
\<close>

datatype FlowchartElement =
    NodeEl nat nat string "string option" Shape
  | ArrowEl nat nat "string option" "string option"
  | SubgraphEl nat nat string "FlowchartElement list"
  | ProcessedEl nat nat

record ParticipantNode =
  pline :: nat
  pcolumn :: nat
  pname :: string
  palias :: "string option"

record MessageNode =
  mline :: nat
  mcolumn :: nat
  mfrom :: string
  mto :: string
  mtext :: string
  arrowType :: ArrowType

datatype SeriesType = Bar | Line

record YAxis =
  ylabel :: string
  ymin :: nat
  ymax :: nat

record BlockElement =
  bline :: nat
  bcolumn :: nat
  bid :: string
  blabel :: string

text \<open>
  The root nodes. The grammars that do not model the inside of their diagram return an
  object with only \<open>type\<close>, \<open>line\<close> and \<open>column\<close>: \<open>PlainNode\<close>.
\<close>

datatype ASTNode =
    FlowchartNode nat nat "string option" "FlowchartElement list"
  | SequenceNode nat nat "ParticipantNode list" "MessageNode list"
  | XYChartNode nat nat "string option" "string list" YAxis "(SeriesType \<times> nat list) list"
  | BlockDiagramNode nat nat "nat option" "BlockElement list"
  | PlainNode string nat nat

record ValidationError =
  line :: nat
  column :: nat
  message :: string
  code :: string
  suggestion :: "string option"

record ValidationResult =
  isValid :: bool
  diagramType :: string
  errors :: "ValidationError list"
  ast :: "ASTNode option"

section \<open>The parser (src/parser/index.ts, class Parser)\<close>

text \<open>
  The file holds two versions of the class; the model follows the second, complete one
  (from line 1204), the one with \<open>linkCount\<close>.

  Numbers: \<open>parseInt\<close> is applied to the value of a \<open>NUMBER\<close> token only, a non-empty run
  of decimal digits. The model computes with natural numbers, which is exact below
  \<open>2^53\<close>, where a JavaScript number is.
\<close>

record Parser =
  tokens :: "Token list"
  position :: nat
  perrors :: "ValidationError list"
  linkCount :: nat

definition parseInt :: "string \<Rightarrow> nat" where
  "parseInt s = foldl (\<lambda>a c. 10 * a + (of_char c - 48)) 0 s"

function show_nat :: "nat \<Rightarrow> string" where
  "show_nat n = (if n < 10 then [char_of (48 + n)] else show_nat (n div 10) @ [char_of (48 + n mod 10)])"
  by pat_completeness auto
termination
  by (relation "measure id") auto

declare show_nat.simps [simp del]

fun join_sp :: "string list \<Rightarrow> string" where
  \<comment> \<open>\<open>parts.join(' ')\<close>\<close>
  "join_sp [] = []"
| "join_sp [x] = x"
| "join_sp (x # y # ys) = x @ '' '' @ join_sp (y # ys)"

definition unquote :: "string \<Rightarrow> string" where
  \<comment> \<open>\<open>value.slice(1, -1)\<close>\<close>
  "unquote s = butlast (tl s)"

definition trim :: "string \<Rightarrow> string" where
  \<comment> \<open>\<open>s.trim()\<close>; white space and line terminators below 256 are the characters of \<open>isSpace\<close>\<close>
  "trim s = rev (dropWhile isSpace (rev (dropWhile isSpace s)))"

subsection \<open>The cursor\<close>

text \<open>
  \<open>currentToken\<close> reads \<open>this.tokens[this.tokens.length - 1]\<close> past the end. The array is
  built by \<open>tokenize\<close> and is never empty (lemma \<open>tokenize_last\<close>), so the read is in
  range in every state the parser is in.
\<close>

definition currentToken :: "Parser \<Rightarrow> Token" where
  "currentToken st =
     (if position st \<ge> length (tokens st) then last (tokens st) else tokens st ! position st)"

definition advance :: "Parser \<Rightarrow> Parser" where
  "advance st = (if position st < length (tokens st) then st\<lparr>position := position st + 1\<rparr> else st)"

definition isAtEnd :: "Parser \<Rightarrow> bool" where
  "isAtEnd st = (position st \<ge> length (tokens st) \<or> ttype (currentToken st) = EOF)"

definition peekToken :: "Parser \<Rightarrow> Token option" where
  "peekToken st =
     (if position st + 1 \<ge> length (tokens st) then None else Some (tokens st ! (position st + 1)))"

definition addError :: "Token \<Rightarrow> string \<Rightarrow> string \<Rightarrow> string option \<Rightarrow> Parser \<Rightarrow> Parser" where
  \<comment> \<open>the default of \<open>code\<close>, \<open>'PARSE_ERROR'\<close>, is written out at each call\<close>
  "addError token msg c sugg st =
     st\<lparr>perrors := perrors st @
          [\<lparr>line = tline token, column = tcolumn token, message = msg, code = c, suggestion = sugg\<rparr>]\<rparr>"

subsection \<open>Skipping loops\<close>

text \<open>
  \<open>while (!this.isAtEnd() && this.currentToken().type !== SEMICOLON &&
  this.currentToken().type !== EOF) this.advance()\<close>: the loop of \<open>skipUntilSemicolon\<close>,
  which \<open>parseClassDef\<close>, \<open>parseClassAssignment\<close>, \<open>parseLinkStyle\<close>, \<open>parseStyle\<close>,
  \<open>parseClickStatement\<close>, \<open>parseNoteStatement\<close> and \<open>skipTitleDirective\<close> repeat.
\<close>

function skipToSemicolon :: "Parser \<Rightarrow> Parser" where
  "skipToSemicolon st =
     (if \<not> isAtEnd st \<and> ttype (currentToken st) \<noteq> SEMICOLON \<and> ttype (currentToken st) \<noteq> EOF
      then skipToSemicolon (advance st) else st)"
  by pat_completeness auto
termination
  by (relation "measure (\<lambda>st. length (tokens st) - position st)")
     (auto simp: isAtEnd_def advance_def)

declare skipToSemicolon.simps [simp del]

definition skipSemicolon :: "Parser \<Rightarrow> Parser" where
  \<comment> \<open>\<open>if (this.currentToken().type === SEMICOLON) this.advance()\<close>\<close>
  "skipSemicolon st = (if ttype (currentToken st) = SEMICOLON then advance st else st)"

definition skipUntilSemicolon :: "Parser \<Rightarrow> Parser" where
  "skipUntilSemicolon st = skipSemicolon (skipToSemicolon st)"

text \<open>\<open>while (!this.isAtEnd() && this.currentToken().type !== EOF) this.advance()\<close>\<close>

function skipToEnd :: "Parser \<Rightarrow> Parser" where
  "skipToEnd st =
     (if \<not> isAtEnd st \<and> ttype (currentToken st) \<noteq> EOF then skipToEnd (advance st) else st)"
  by pat_completeness auto
termination
  by (relation "measure (\<lambda>st. length (tokens st) - position st)")
     (auto simp: isAtEnd_def advance_def)

declare skipToEnd.simps [simp del]

text \<open>The recovery loop of \<open>parseNode\<close> after a missing closing delimiter.\<close>

function recoverTo :: "TokenType \<Rightarrow> Parser \<Rightarrow> Parser" where
  "recoverTo closer st =
     (if \<not> isAtEnd st \<and> ttype (currentToken st) \<noteq> closer \<and> ttype (currentToken st) \<noteq> ARROW
         \<and> ttype (currentToken st) \<noteq> DOTTED_ARROW \<and> ttype (currentToken st) \<noteq> EOF
      then recoverTo closer (advance st) else st)"
  by pat_completeness auto
termination
  by (relation "measure (\<lambda>(c, st). length (tokens st) - position st)")
     (auto simp: isAtEnd_def advance_def)

declare recoverTo.simps [simp del]

subsection \<open>Statements of the flowchart grammar\<close>

definition hasEqualsSyntax :: "Parser \<Rightarrow> bool" where
  \<comment> \<open>the look-ahead of \<open>parseClassDef\<close>: a token of value \<open>=\<close> before the next semicolon or
      \<open>EOF\<close> token, from the cursor on\<close>
  "hasEqualsSyntax st =
     list_ex (\<lambda>t. tvalue t = ''='')
       (takeWhile (\<lambda>t. ttype t \<noteq> SEMICOLON \<and> ttype t \<noteq> EOF) (drop (position st) (tokens st)))"

definition parseClassDef :: "Parser \<Rightarrow> Parser" where
  "parseClassDef st =
     (let classDefToken = currentToken st;
          st1 = advance st;
          st2 = (if hasEqualsSyntax st1
                 then addError classDefToken ''classDef with equals syntax is not supported in flowcharts''
                        ''UNSUPPORTED_CLASSDEF_EQUALS_SYNTAX''
                        (Some ''Use colon syntax instead (e.g., fill:#f9f instead of fill=lightblue)'') st1
                 else st1)
      in skipSemicolon (skipToSemicolon st2))"

definition parseClassAssignment :: "Parser \<Rightarrow> Parser" where
  "parseClassAssignment st =
     (let st1 = advance st;
          st2 = (if ttype (currentToken st1) = IDENTIFIER then advance st1 else st1);
          st3 = (if ttype (currentToken st2) = IDENTIFIER then advance st2 else st2)
      in skipSemicolon (skipToSemicolon st3))"

definition parseLinkStyle :: "Parser \<Rightarrow> Parser" where
  "parseLinkStyle st =
     (let linkStyleToken = currentToken st;
          st1 = advance st;
          st2 = (if ttype (currentToken st1) = NUMBER
                 then let linkIndex = parseInt (tvalue (currentToken st1));
                          st' = advance st1
                      in if linkIndex \<ge> linkCount st'
                         then addError linkStyleToken
                                (''linkStyle index '' @ show_nat linkIndex @ '' is out of bounds (only ''
                                   @ show_nat (linkCount st') @ '' link(s) defined)'')
                                ''INVALID_LINKSTYLE_INDEX''
                                (Some (''Use a link index between 0 and '' @ show_nat (max 0 (linkCount st' - 1))))
                                st'
                         else st'
                 else st1)
      in skipSemicolon (skipToSemicolon st2))"

definition parseStyle :: "Parser \<Rightarrow> Parser" where
  "parseStyle st = skipSemicolon (skipToSemicolon (advance st))"

definition parseClickStatement :: "Parser \<Rightarrow> Parser" where
  "parseClickStatement st = skipSemicolon (skipToSemicolon (advance st))"

definition parseNoteStatement :: "Parser \<Rightarrow> Parser" where
  "parseNoteStatement st =
     (let st1 = advance st
      in case peekToken st1 of
           None \<Rightarrow> skipSemicolon (skipToSemicolon st1)
         | Some nxt \<Rightarrow>
             if tvalue nxt = ''for'' \<or> ttype nxt = IDENTIFIER
             then addError (currentToken st1) ''Standalone note statements are not supported in flowcharts''
                    ''INVALID_NOTE_SYNTAX'' (Some ''Use note arrows instead: A -.->|note text| B'') st1
             else skipSemicolon (skipToSemicolon st1))"

definition parseDirectionStatement :: "Parser \<Rightarrow> Parser" where
  "parseDirectionStatement st =
     (let st1 = advance st
      in if ttype (currentToken st1) = IDENTIFIER then advance st1 else st1)"

definition skipTitleDirective :: "Parser \<Rightarrow> Parser" where
  "skipTitleDirective st =
     (let st1 = advance st;
          st2 = (if ttype (currentToken st1) = STRING then advance st1 else st1)
      in skipSemicolon (skipToSemicolon st2))"

fun scanBack :: "nat \<Rightarrow> Token list \<Rightarrow> bool" where
  \<comment> \<open>the backward loop of \<open>isInlineComment\<close>, on the tokens before the comment, nearest first\<close>
  "scanBack currentLine [] = False"
| "scanBack currentLine (token # ts) =
     (if tline token < currentLine then False
      else if tline token = currentLine \<and> ttype token \<noteq> WHITESPACE \<and> ttype token \<noteq> NEWLINE then True
      else scanBack currentLine ts)"

definition isInlineComment :: "Parser \<Rightarrow> bool" where
  \<comment> \<open>The source is called with \<open>this.currentToken()\<close> and finds its index by identity:
      the index \<open>currentToken\<close> read it at.\<close>
  "isInlineComment st =
     (let commentIndex = (if position st \<ge> length (tokens st) then length (tokens st) - 1 else position st)
      in scanBack (tline (currentToken st)) (rev (take commentIndex (tokens st))))"


subsection \<open>Flowchart grammar\<close>

text \<open>
  Loops whose condition does not test \<open>isAtEnd\<close> carry fuel: \<open>None\<close> is a loop that has not
  returned within the fuel. The fuel bounds the iterations of each loop and the depth of
  nested subgraphs.
\<close>

function collectIdentifiersAsLabel_loop :: "bool \<Rightarrow> Parser \<Rightarrow> string list \<Rightarrow> string list \<times> Parser" where
  "collectIdentifiersAsLabel_loop includeNumbers st parts =
     (if (ttype (currentToken st) = IDENTIFIER \<or> (includeNumbers \<and> ttype (currentToken st) = NUMBER))
          \<and> \<not> isAtEnd st
      then collectIdentifiersAsLabel_loop includeNumbers (advance st) (parts @ [tvalue (currentToken st)])
      else (parts, st))"
  by pat_completeness auto
termination
  by (relation "measure (\<lambda>(b, st, ps). length (tokens st) - position st)")
     (auto simp: isAtEnd_def advance_def)

declare collectIdentifiersAsLabel_loop.simps [simp del]

definition collectIdentifiersAsLabel :: "bool \<Rightarrow> Parser \<Rightarrow> string \<times> Parser" where
  "collectIdentifiersAsLabel includeNumbers st =
     (case collectIdentifiersAsLabel_loop includeNumbers st [] of (parts, st1) \<Rightarrow> (join_sp parts, st1))"

fun labelParts :: "nat \<Rightarrow> bool \<Rightarrow> Parser \<Rightarrow> string list \<Rightarrow> (string list \<times> Parser) option" where
  \<comment> \<open>\<open>while (this.currentToken().type === IDENTIFIER) { labelParts.push(...); this.advance(); }\<close>
      of \<open>parseNode\<close>, and with \<open>|| ... === NUMBER\<close> of \<open>parseArrow\<close>\<close>
  "labelParts 0 includeNumbers st parts = None"
| "labelParts (Suc n) includeNumbers st parts =
     (if ttype (currentToken st) = IDENTIFIER \<or> (includeNumbers \<and> ttype (currentToken st) = NUMBER)
      then labelParts n includeNumbers (advance st) (parts @ [tvalue (currentToken st)])
      else Some (parts, st))"

definition shapeLabel :: "nat \<Rightarrow> Parser \<Rightarrow> (string option \<times> Parser) option" where
  \<comment> \<open>the label inside \<open>( )\<close>, \<open>(( ))\<close> and \<open>{ }\<close>\<close>
  "shapeLabel n st =
     (if ttype (currentToken st) = STRING then Some (Some (unquote (tvalue (currentToken st))), advance st)
      else if ttype (currentToken st) = IDENTIFIER then
        (case labelParts n False st [] of
           None \<Rightarrow> None
         | Some (parts, st1) \<Rightarrow> Some (Some (join_sp parts), st1))
      else Some (None, st))"

definition expectClose :: "TokenType \<Rightarrow> string \<Rightarrow> Parser \<Rightarrow> Parser" where
  \<comment> \<open>the closing delimiter, or the error and the recovery\<close>
  "expectClose closer msg st =
     (if ttype (currentToken st) = closer then advance st
      else let st1 = recoverTo closer (addError (currentToken st) msg ''PARSE_ERROR'' None st)
           in if ttype (currentToken st1) = closer then advance st1 else st1)"

definition parseNode :: "nat \<Rightarrow> Parser \<Rightarrow> (FlowchartElement \<times> Parser) option" where
  "parseNode n st =
     (let idToken = currentToken st
      in if ttype idToken = EOF then
           Some (NodeEl (tline idToken) (tcolumn idToken) [] None Rect,
                 addError idToken ''Expected node identifier'' ''MISSING_NODE'' (Some ''Add a node identifier'') st)
         else
           let st1 = advance st
           in if ttype (currentToken st1) = BRACKET_OPEN then
                (let st2 = advance st1;
                     lab = (if ttype (currentToken st2) = STRING
                              then (Some (unquote (tvalue (currentToken st2))), advance st2)
                            else if ttype (currentToken st2) = IDENTIFIER \<or> ttype (currentToken st2) = NUMBER
                              then (case collectIdentifiersAsLabel True st2 of (l, st3) \<Rightarrow> (Some l, st3))
                            else (None, st2))
                 in Some (NodeEl (tline idToken) (tcolumn idToken) (tvalue idToken) (fst lab) Rect,
                          expectClose BRACKET_CLOSE ''Expected closing bracket ]'' (snd lab)))
              else if ttype (currentToken st1) = PAREN_OPEN then
                (case shapeLabel n (advance st1) of
                   None \<Rightarrow> None
                 | Some (lab, st3) \<Rightarrow>
                     Some (NodeEl (tline idToken) (tcolumn idToken) (tvalue idToken) lab Round,
                           expectClose PAREN_CLOSE ''Expected closing parenthesis )'' st3))
              else if ttype (currentToken st1) = DOUBLE_PAREN_OPEN then
                (case shapeLabel n (advance st1) of
                   None \<Rightarrow> None
                 | Some (lab, st3) \<Rightarrow>
                     Some (NodeEl (tline idToken) (tcolumn idToken) (tvalue idToken) lab Circle,
                           expectClose DOUBLE_PAREN_CLOSE ''Expected closing double parenthesis ))'' st3))
              else if ttype (currentToken st1) = BRACE_OPEN then
                (case shapeLabel n (advance st1) of
                   None \<Rightarrow> None
                 | Some (lab, st3) \<Rightarrow>
                     Some (NodeEl (tline idToken) (tcolumn idToken) (tvalue idToken) lab Diamond,
                           expectClose BRACE_CLOSE ''Expected closing brace }'' st3))
              else Some (NodeEl (tline idToken) (tcolumn idToken) (tvalue idToken) None Rect, st1))"

fun nodeId :: "FlowchartElement \<Rightarrow> string option" where
  \<comment> \<open>the field \<open>id\<close>\<close>
  "nodeId (NodeEl l c i lab sh) = Some i"
| "nodeId (SubgraphEl l c i ch) = Some i"
| "nodeId e = None"

definition arrowLabel :: "nat \<Rightarrow> Parser \<Rightarrow> (string option \<times> Parser) option" where
  \<comment> \<open>the optional \<open>|label|\<close> of \<open>parseArrow\<close>\<close>
  "arrowLabel n st =
     (if ttype (currentToken st) = PIPE then
        (let st1 = advance st
         in case (if ttype (currentToken st1) = STRING
                    then Some (Some (unquote (tvalue (currentToken st1))), advance st1)
                  else if ttype (currentToken st1) = IDENTIFIER \<or> ttype (currentToken st1) = NUMBER
                    then (case labelParts n True st1 [] of
                            None \<Rightarrow> None
                          | Some (parts, st2) \<Rightarrow> Some (Some (join_sp parts), st2))
                  else Some (None, st1)) of
              None \<Rightarrow> None
            | Some (lab, st3) \<Rightarrow>
                Some (lab, if ttype (currentToken st3) = PIPE then advance st3
                           else addError (currentToken st3) ''Expected closing pipe |'' ''PARSE_ERROR'' None st3))
      else Some (None, st))"

definition parseArrow :: "nat \<Rightarrow> Parser \<Rightarrow> (FlowchartElement \<times> Parser) option" where
  "parseArrow n st =
     (let arrowTok = currentToken st;
          st1 = advance st;
          st2 = st1\<lparr>linkCount := linkCount st1 + 1\<rparr>
      in case arrowLabel n st2 of
           None \<Rightarrow> None
         | Some (lab, st3) \<Rightarrow>
             if isAtEnd st3 \<or> ttype (currentToken st3) = EOF then
               Some (ArrowEl (tline arrowTok) (tcolumn arrowTok) lab None,
                     addError arrowTok ''Arrow must have a destination node'' ''INCOMPLETE_ARROW''
                       (Some ''Add a node after the arrow'') st3)
             else
               (case parseNode n st3 of
                  None \<Rightarrow> None
                | Some (toNode, st4) \<Rightarrow>
                    Some (ArrowEl (tline arrowTok) (tcolumn arrowTok) lab (nodeId toNode), st4)))"

fun isNode :: "FlowchartElement \<Rightarrow> bool" where
  "isNode (NodeEl l c i lab sh) = True"
| "isNode e = False"

fun elLine :: "FlowchartElement \<Rightarrow> nat" where
  "elLine (NodeEl l c i lab sh) = l"
| "elLine (ArrowEl l c lab to) = l"
| "elLine (SubgraphEl l c i ch) = l"
| "elLine (ProcessedEl l c) = l"

fun elColumn :: "FlowchartElement \<Rightarrow> nat" where
  "elColumn (NodeEl l c i lab sh) = c"
| "elColumn (ArrowEl l c lab to) = c"
| "elColumn (SubgraphEl l c i ch) = c"
| "elColumn (ProcessedEl l c) = c"

definition idText :: "FlowchartElement \<Rightarrow> string" where
  \<comment> \<open>\<open>${node.id}\<close> in a template literal\<close>
  "idText e = (case nodeId e of Some i \<Rightarrow> i | None \<Rightarrow> ''undefined'')"

definition missingArrowMessage :: "FlowchartElement \<Rightarrow> FlowchartElement \<Rightarrow> string" where
  "missingArrowMessage currentNode nextNode =
     ''Adjacent nodes '' @ [CHR 0x27] @ idText currentNode @ [CHR 0x27] @ '' and '' @ [CHR 0x27]
       @ idText nextNode @ [CHR 0x27] @ '' on same line without arrow connection''"

definition missingArrowError :: "FlowchartElement \<Rightarrow> FlowchartElement \<Rightarrow> Parser \<Rightarrow> Parser" where
  \<comment> \<open>the \<open>addError\<close> of \<open>validateFlowchartConnections\<close>, with its synthesized token\<close>
  "missingArrowError currentNode nextNode st =
     addError \<lparr>ttype = IDENTIFIER, tvalue = (case nodeId nextNode of Some i \<Rightarrow> i | None \<Rightarrow> []),
                tline = elLine nextNode, tcolumn = elColumn nextNode, tposition = 0\<rparr>
       (missingArrowMessage currentNode nextNode)
       ''MISSING_ARROW''
       (Some ''Add an arrow (-->) between the nodes or place them on separate lines'') st"

fun validateFlowchartConnections :: "FlowchartElement list \<Rightarrow> Parser \<Rightarrow> Parser" where
  "validateFlowchartConnections (currentNode # nextNode # rest) st =
     validateFlowchartConnections (nextNode # rest)
       (if isNode currentNode \<and> isNode nextNode \<and> elLine currentNode = elLine nextNode
        then missingArrowError currentNode nextNode st else st)"
| "validateFlowchartConnections nodes st = st"

definition processed :: "Token \<Rightarrow> FlowchartElement option" where
  \<comment> \<open>\<open>{ type: 'processed', line: token.line, column: token.column }\<close>\<close>
  "processed token = Some (ProcessedEl (tline token) (tcolumn token))"

definition isEndKeyword :: "Token \<Rightarrow> bool" where
  \<comment> \<open>\<open>token.type === IDENTIFIER && token.value.toLowerCase() === 'end'\<close>\<close>
  "isEndKeyword token = (ttype token = IDENTIFIER \<and> toLowerCase (tvalue token) = ''end'')"

fun parseFlowchartElement :: "nat \<Rightarrow> Parser \<Rightarrow> (FlowchartElement option \<times> Parser) option"
  and parseSubgraph :: "nat \<Rightarrow> Parser \<Rightarrow> (FlowchartElement \<times> Parser) option"
  and subgraph_loop :: "nat \<Rightarrow> Parser \<Rightarrow> FlowchartElement list \<Rightarrow> (FlowchartElement list \<times> Parser) option"
where
  "parseFlowchartElement 0 st = None"
| "parseFlowchartElement (Suc n) st =
     (let token = currentToken st
      in if isEndKeyword token then
           Some (processed token,
                 advance (addError token ''Unexpected \"end\" keyword - found end without matching subgraph''
                            ''UNMATCHED_END''
                            (Some ''Remove the end keyword or add a corresponding subgraph'') st))
         else if tvalue token = ''classDef'' then Some (processed token, parseClassDef st)
         else if tvalue token = ''class'' then Some (processed token, parseClassAssignment st)
         else if tvalue token = ''linkStyle'' then Some (processed token, parseLinkStyle st)
         else if tvalue token = ''style'' then Some (processed token, parseStyle st)
         else if tvalue token = ''click'' then Some (processed token, parseClickStatement st)
         else if tvalue token = ''note'' then Some (processed token, parseNoteStatement st)
         else if tvalue token = ''direction'' then Some (processed token, parseDirectionStatement st)
         else if tvalue token = ''title'' then
           Some (processed token,
                 skipTitleDirective
                   (addError token ''Title directive is not supported in flowcharts''
                      ''UNSUPPORTED_TITLE_DIRECTIVE''
                      (Some ''Remove the title directive - flowcharts do not support titles'') st))
         else if ttype token = IDENTIFIER then
           (case parseNode n st of None \<Rightarrow> None | Some (e, st1) \<Rightarrow> Some (Some e, st1))
         else if ttype token = ARROW \<or> ttype token = DOTTED_ARROW \<or> ttype token = THICK_ARROW then
           (case parseArrow n st of None \<Rightarrow> None | Some (e, st1) \<Rightarrow> Some (Some e, st1))
         else if ttype token = SUBGRAPH then
           (case parseSubgraph n st of None \<Rightarrow> None | Some (e, st1) \<Rightarrow> Some (Some e, st1))
         else if ttype token = COMMENT then
           Some (processed token,
                 advance (if isInlineComment st
                          then addError token ''Inline comments are not supported''
                                 ''INLINE_COMMENT_NOT_SUPPORTED'' (Some ''Move comment to its own line'') st
                          else st))
         else if ttype token = DIRECTIVE then Some (processed token, advance st)
         else if ttype token \<in> set [SEMICOLON, COLON, COMMA, EQUALS, PIPE, NUMBER, STRING,
                                     BRACKET_OPEN, BRACKET_CLOSE, PAREN_OPEN, PAREN_CLOSE,
                                     BRACE_OPEN, BRACE_CLOSE] then
           Some (None, advance st)
         else Some (None, st))"
| "parseSubgraph 0 st = None"
| "parseSubgraph (Suc n) st =
     (let startToken = currentToken st;
          st1 = advance st;
          sid = tvalue (currentToken st1);
          st2 = advance st1;
          st3 = (if ttype (currentToken st2) = BRACKET_OPEN then
                   (let a = advance st2;
                        b = (if ttype (currentToken a) = STRING then advance a else a)
                    in if ttype (currentToken b) = BRACKET_CLOSE then advance b else b)
                 else st2)
      in case subgraph_loop n st3 [] of
           None \<Rightarrow> None
         | Some (children, st4) \<Rightarrow>
             (let st5 = (if isEndKeyword (currentToken st4) then advance st4
                         else addError (currentToken st4) ''Expected \"end\" to close subgraph''
                                ''MISSING_SUBGRAPH_END'' (Some ''Add \"end\" keyword to close the subgraph'') st4)
              in Some (SubgraphEl (tline startToken) (tcolumn startToken) sid children,
                       validateFlowchartConnections children st5)))"
| "subgraph_loop 0 st children = None"
| "subgraph_loop (Suc n) st children =
     (if \<not> isAtEnd st \<and> \<not> isEndKeyword (currentToken st) then
        (case parseFlowchartElement n st of
           None \<Rightarrow> None
         | Some (child, st1) \<Rightarrow>
             subgraph_loop n st1 (case child of Some e \<Rightarrow> children @ [e] | None \<Rightarrow> children))
      else Some (children, st))"

definition otherDiagramTypes :: "TokenType list" where
  \<comment> \<open>the array \<open>diagramTypes\<close> of \<open>parseFlowchart\<close>\<close>
  "otherDiagramTypes =
     [SEQUENCE_DIAGRAM, CLASS_DIAGRAM, STATE_DIAGRAM, STATE_DIAGRAM_V2, ER_DIAGRAM, JOURNEY,
      GANTT, PIE, GITGRAPH, MINDMAP, TIMELINE, XYCHART_BETA]"

fun flowchart_loop :: "nat \<Rightarrow> Parser \<Rightarrow> FlowchartElement list \<Rightarrow> (FlowchartElement list \<times> Parser) option" where
  "flowchart_loop 0 st nodes = None"
| "flowchart_loop (Suc n) st nodes =
     (if \<not> isAtEnd st \<and> ttype (currentToken st) \<noteq> EOF then
        (if ttype (currentToken st) \<in> set otherDiagramTypes then Some (nodes, st)
         else case parseFlowchartElement n st of
                None \<Rightarrow> None
              | Some (Some (ProcessedEl l c), st1) \<Rightarrow> flowchart_loop n st1 nodes
              | Some (Some e, st1) \<Rightarrow> flowchart_loop n st1 (nodes @ [e])
              | Some (None, st1) \<Rightarrow> flowchart_loop n (advance st1) nodes)
      else Some (nodes, st))"

definition parseFlowchart :: "nat \<Rightarrow> Parser \<Rightarrow> (ASTNode \<times> Parser) option" where
  "parseFlowchart n st =
     (let startToken = currentToken st;
          st1 = (advance st)\<lparr>linkCount := 0\<rparr>;
          dir = (if ttype (currentToken st1) = IDENTIFIER then Some (tvalue (currentToken st1)) else None);
          st2 = (if ttype (currentToken st1) = IDENTIFIER then advance st1 else st1)
      in case flowchart_loop n st2 [] of
           None \<Rightarrow> None
         | Some (nodes, st3) \<Rightarrow>
             Some (FlowchartNode (tline startToken) (tcolumn startToken) dir nodes,
                   validateFlowchartConnections nodes st3))"

subsection \<open>Frame facts: the token array is fixed, the cursor and the diagnostics only grow\<close>

definition frame :: "Parser \<Rightarrow> Parser \<Rightarrow> bool" where
  "frame st st' = (tokens st' = tokens st \<and> position st \<le> position st'
                    \<and> (\<exists>es. perrors st' = perrors st @ es))"

definition progress :: "Parser \<Rightarrow> Parser \<Rightarrow> bool" where
  \<comment> \<open>the cursor has moved\<close>
  "progress st st' = (frame st st' \<and> position st < position st')"

named_theorems frame_simps

lemma frame_refl [frame_simps]: "frame st st"
  by (simp add: frame_def)

lemma frame_trans: "frame a b \<Longrightarrow> frame b c \<Longrightarrow> frame a c"
  by (auto simp: frame_def)

lemma progress_frame: "progress a b \<Longrightarrow> frame b c \<Longrightarrow> progress a c"
  by (auto simp: progress_def frame_def)

lemma frame_progress: "frame a b \<Longrightarrow> progress b c \<Longrightarrow> progress a c"
  by (auto simp: progress_def frame_def)

lemma progress_imp_frame: "progress a b \<Longrightarrow> frame a b"
  by (simp add: progress_def)

lemma progress_measure:
  "progress st st' \<Longrightarrow> \<not> isAtEnd st \<Longrightarrow>
     length (tokens st') - position st' < length (tokens st) - position st"
  by (auto simp: progress_def frame_def isAtEnd_def)

lemma isAtEnd_addError [simp]: "isAtEnd (addError t m c s st) = isAtEnd st"
  by (simp add: isAtEnd_def addError_def currentToken_def)

lemma currentToken_addError [simp]: "currentToken (addError t m c s st) = currentToken st"
  by (simp add: addError_def currentToken_def)

lemma peekToken_addError [simp]: "peekToken (addError t m c s st) = peekToken st"
  by (simp add: addError_def peekToken_def)

lemma frame_advance0: "frame st (advance st)"
  by (simp add: frame_def advance_def)

lemma frame_addError0: "frame st (addError t m c s st)"
  by (simp add: frame_def addError_def)

lemma frame_linkCount0: "frame st (st\<lparr>linkCount := k\<rparr>)"
  by (simp add: frame_def)

lemma frame_advance [frame_simps]: "frame a b \<Longrightarrow> frame a (advance b)"
  by (rule frame_trans [OF _ frame_advance0])

lemma frame_addError [frame_simps]: "frame a b \<Longrightarrow> frame a (addError t m c s b)"
  by (rule frame_trans [OF _ frame_addError0])

lemma frame_linkCount [frame_simps]: "frame a b \<Longrightarrow> frame a (b\<lparr>linkCount := k\<rparr>)"
  by (rule frame_trans [OF _ frame_linkCount0])

lemma progress_advance0 [frame_simps]: "\<not> isAtEnd st \<Longrightarrow> progress st (advance st)"
  by (simp add: progress_def isAtEnd_def advance_def frame_def)

lemma progress_advance [frame_simps]: "progress a b \<Longrightarrow> progress a (advance b)"
  by (rule progress_frame [OF _ frame_advance0])

lemma progress_addError [frame_simps]: "progress a b \<Longrightarrow> progress a (addError t m c s b)"
  by (rule progress_frame [OF _ frame_addError0])

lemma progress_linkCount [frame_simps]: "progress a b \<Longrightarrow> progress a (b\<lparr>linkCount := k\<rparr>)"
  by (rule progress_frame [OF _ frame_linkCount0])

lemma frame_skipToSemicolon0: "frame st (skipToSemicolon st)"
proof (induction st rule: skipToSemicolon.induct)
  case (1 st)
  then show ?case
    by (subst skipToSemicolon.simps) (auto intro: frame_trans [OF frame_advance0] frame_refl)
qed

lemma frame_skipToEnd0: "frame st (skipToEnd st)"
proof (induction st rule: skipToEnd.induct)
  case (1 st)
  then show ?case
    by (subst skipToEnd.simps) (auto intro: frame_trans [OF frame_advance0] frame_refl)
qed

lemma frame_recoverTo0: "frame st (recoverTo c st)"
proof (induction c st rule: recoverTo.induct)
  case (1 c st)
  then show ?case
    by (subst recoverTo.simps) (auto intro: frame_trans [OF frame_advance0] frame_refl)
qed

lemma frame_skipSemicolon0: "frame st (skipSemicolon st)"
  by (simp add: skipSemicolon_def frame_simps)

lemma frame_skipUntilSemicolon0: "frame st (skipUntilSemicolon st)"
  unfolding skipUntilSemicolon_def by (rule frame_trans [OF frame_skipToSemicolon0 frame_skipSemicolon0])

lemmas frame_skipToSemicolon [frame_simps] = frame_trans [OF _ frame_skipToSemicolon0]
lemmas frame_skipToEnd [frame_simps] = frame_trans [OF _ frame_skipToEnd0]
lemmas frame_recoverTo [frame_simps] = frame_trans [OF _ frame_recoverTo0]
lemmas frame_skipSemicolon [frame_simps] = frame_trans [OF _ frame_skipSemicolon0]
lemmas frame_skipUntilSemicolon [frame_simps] = frame_trans [OF _ frame_skipUntilSemicolon0]
lemmas progress_skipToSemicolon [frame_simps] = progress_frame [OF _ frame_skipToSemicolon0]
lemmas progress_skipToEnd [frame_simps] = progress_frame [OF _ frame_skipToEnd0]
lemmas progress_recoverTo [frame_simps] = progress_frame [OF _ frame_recoverTo0]
lemmas progress_skipSemicolon [frame_simps] = progress_frame [OF _ frame_skipSemicolon0]
lemmas progress_skipUntilSemicolon [frame_simps] = progress_frame [OF _ frame_skipUntilSemicolon0]

lemma progress_skipUntilSemicolon0: "\<not> isAtEnd st \<Longrightarrow> progress st (skipUntilSemicolon st)"
proof -
  assume ne: "\<not> isAtEnd st"
  show ?thesis
  proof (cases "ttype (currentToken st) = SEMICOLON")
    case True
    then have "skipToSemicolon st = st" by (subst skipToSemicolon.simps) simp
    with True ne show ?thesis
      by (simp add: skipUntilSemicolon_def skipSemicolon_def progress_advance0)
  next
    case False
    with ne have "skipToSemicolon st = skipToSemicolon (advance st)"
      by (subst skipToSemicolon.simps) (simp add: isAtEnd_def)
    then have "skipUntilSemicolon st = skipUntilSemicolon (advance st)"
      by (simp add: skipUntilSemicolon_def)
    with progress_frame [OF progress_advance0 [OF ne] frame_skipUntilSemicolon0]
    show ?thesis by simp
  qed
qed

subsection \<open>Sequence-diagram grammar\<close>

definition participantName :: "Token \<Rightarrow> string" where
  \<comment> \<open>\<open>token.type === STRING ? token.value.slice(1, -1) : token.value\<close>\<close>
  "participantName token = (if ttype token = STRING then unquote (tvalue token) else tvalue token)"

definition parseParticipant :: "Parser \<Rightarrow> ParticipantNode \<times> Parser" where
  "parseParticipant st =
     (let startToken = currentToken st;
          st1 = advance st;
          nameToken = currentToken st1
      in if ttype nameToken = EOF \<or> isAtEnd st1
            \<or> (ttype nameToken \<noteq> IDENTIFIER \<and> ttype nameToken \<noteq> STRING) then
           (\<lparr>pline = tline startToken, pcolumn = tcolumn startToken, pname = [], palias = None\<rparr>,
            addError startToken ''Participant declaration must have a name'' ''MISSING_PARTICIPANT_NAME''
              (Some ''Add a participant name after the participant keyword'') st1)
         else
           let st2 = advance st1;
               al = (if ttype (currentToken st2) = IDENTIFIER \<and> tvalue (currentToken st2) = ''as'' then
                       (let st3 = advance st2
                        in if ttype (currentToken st3) = IDENTIFIER \<or> ttype (currentToken st3) = STRING
                           then (Some (participantName (currentToken st3)), advance st3)
                           else (None, st3))
                     else (None, st2))
           in (\<lparr>pline = tline startToken, pcolumn = tcolumn startToken,
                pname = participantName nameToken, palias = fst al\<rparr>, snd al))"

function message_loop :: "nat \<Rightarrow> Parser \<Rightarrow> string list \<Rightarrow> string list \<times> Parser" where
  "message_loop startLine st messageParts =
     (if \<not> isAtEnd st \<and> tline (currentToken st) = startLine \<and> ttype (currentToken st) \<noteq> EOF then
        (if ttype (currentToken st) = STRING then
           message_loop startLine (advance st) (messageParts @ [unquote (tvalue (currentToken st))])
         else if ttype (currentToken st) = IDENTIFIER \<or> ttype (currentToken st) = NUMBER then
           message_loop startLine (advance st) (messageParts @ [tvalue (currentToken st)])
         else if ttype (currentToken st) = WHITESPACE \<or> ttype (currentToken st) = NEWLINE then
           message_loop startLine (advance st) messageParts
         else if ttype (currentToken st) = COMMA \<or> ttype (currentToken st) = COLON then
           message_loop startLine (advance st) (messageParts @ [tvalue (currentToken st)])
         else
           message_loop startLine (advance st) (messageParts @ [tvalue (currentToken st)]))
      else (messageParts, st))"
  by pat_completeness auto
termination
  by (relation "measure (\<lambda>(l, st, ps). length (tokens st) - position st)")
     (auto simp: isAtEnd_def advance_def)

declare message_loop.simps [simp del]

definition messageArrowType :: "Token \<Rightarrow> ArrowType" where
  \<comment> \<open>\<open>let arrowType: 'solid' | 'dotted' | 'thick' = 'solid'\<close> and the assignments that follow\<close>
  "messageArrowType arrowTok =
     (if ttype arrowTok = SEQUENCE_ARROW \<or> ttype arrowTok = ARROW then
        (if tvalue arrowTok = ''->>'' then Solid
         else if tvalue arrowTok = ''-->>'' then Dotted
         else if tvalue arrowTok = ''->'' then Solid
         else if tvalue arrowTok = ''-->'' then Solid
         else Solid)
      else Solid)"

definition parseMessageLine :: "Parser \<Rightarrow> MessageNode \<times> Parser" where
  "parseMessageLine st =
     (let fromToken = currentToken st;
          st1 = advance st;
          arrowTok = currentToken st1;
          st2 = (if ttype arrowTok = SEQUENCE_ARROW \<or> ttype arrowTok = ARROW then advance st1 else st1);
          toToken = currentToken st2
      in if ttype toToken = EOF \<or> isAtEnd st2 then
           (\<lparr>mline = tline fromToken, mcolumn = tcolumn fromToken, mfrom = participantName fromToken,
             mto = [], mtext = [], arrowType = messageArrowType arrowTok\<rparr>,
            addError arrowTok ''Incomplete message: arrow must have a destination participant''
              ''INCOMPLETE_MESSAGE'' (Some ''Add a destination participant after the arrow'') st2)
         else
           let st3 = advance st2;
               st4 = (if ttype (currentToken st3) = COLON then advance st3 else st3);
               r = message_loop (tline (currentToken st4)) st4 []
           in (\<lparr>mline = tline fromToken, mcolumn = tcolumn fromToken, mfrom = participantName fromToken,
                mto = participantName toToken, mtext = trim (join_sp (fst r)),
                arrowType = messageArrowType arrowTok\<rparr>, snd r))"

definition isStylingKeyword :: "string \<Rightarrow> bool" where
  "isStylingKeyword v = (v = ''linkStyle'' \<or> v = ''style'' \<or> v = ''click'' \<or> v = ''note'')"

definition sequence_step :: "Parser \<Rightarrow> ParticipantNode list \<Rightarrow> MessageNode list
    \<Rightarrow> Parser \<times> ParticipantNode list \<times> MessageNode list" where
  \<comment> \<open>the body of the loop of \<open>parseSequenceDiagram\<close>\<close>
  "sequence_step st participants messages =
     (let token = currentToken st
      in if ttype token = PARTICIPANT then
           (case parseParticipant st of (p, st1) \<Rightarrow> (st1, participants @ [p], messages))
         else if ttype token = DIRECTIVE then (advance st, participants, messages)
         else if tvalue token = ''classDef'' \<or> tvalue token = ''class'' \<or> isStylingKeyword (tvalue token) then
           (skipUntilSemicolon
              (addError token (tvalue token @ '' directive is not supported in sequence diagrams'')
                 ''UNSUPPORTED_STYLING_DIRECTIVE''
                 (Some ''Styling directives are not supported in sequence diagrams'') st),
            participants, messages)
         else if ttype token = IDENTIFIER \<or> ttype token = STRING then
           (case peekToken st of
              Some nxt \<Rightarrow>
                if ttype nxt = SEQUENCE_ARROW \<or> ttype nxt = ARROW
                then (case parseMessageLine st of (m, st1) \<Rightarrow> (st1, participants, messages @ [m]))
                else (advance st, participants, messages)
            | None \<Rightarrow> (advance st, participants, messages))
         else (advance st, participants, messages))"

lemma progress_skipUntilSemicolon_addError:
  "\<not> isAtEnd st \<Longrightarrow> progress st (skipUntilSemicolon (addError t m c s st))"
  by (rule frame_progress [OF frame_addError0 progress_skipUntilSemicolon0]) simp

lemma frame_message_loop0: "frame st (snd (message_loop l st ps))"
proof (induction l st ps rule: message_loop.induct)
  case (1 l st ps)
  then show ?case
    by (subst message_loop.simps) (auto intro: frame_trans [OF frame_advance0] frame_refl)
qed

lemmas frame_message_loop [frame_simps] = frame_trans [OF _ frame_message_loop0]
lemmas progress_message_loop [frame_simps] = progress_frame [OF _ frame_message_loop0]

lemma progress_parseParticipant0: "\<not> isAtEnd st \<Longrightarrow> progress st (snd (parseParticipant st))"
  by (simp add: parseParticipant_def Let_def frame_simps)

lemma progress_parseMessageLine0: "\<not> isAtEnd st \<Longrightarrow> progress st (snd (parseMessageLine st))"
  by (simp add: parseMessageLine_def Let_def frame_simps)

lemma progress_sequence_step:
  "\<not> isAtEnd st \<Longrightarrow> progress st (fst (sequence_step st ps ms))"
  using progress_parseParticipant0 [of st] progress_parseMessageLine0 [of st]
  by (simp add: sequence_step_def Let_def frame_simps case_prod_beta
                progress_skipUntilSemicolon_addError split: option.split)

lemma sequence_step_measure:
  "\<not> isAtEnd st \<Longrightarrow>
     (case sequence_step st ps ms of (st1, ps1, ms1) \<Rightarrow> length (tokens st1) - position st1)
       < length (tokens st) - position st"
  using progress_sequence_step [of st ps ms] by (simp add: case_prod_beta progress_measure)

function sequence_loop :: "Parser \<Rightarrow> ParticipantNode list \<Rightarrow> MessageNode list
    \<Rightarrow> Parser \<times> ParticipantNode list \<times> MessageNode list" where
  "sequence_loop st participants messages =
     (if \<not> isAtEnd st \<and> ttype (currentToken st) \<noteq> EOF then
        (case sequence_step st participants messages of
           (st1, participants1, messages1) \<Rightarrow> sequence_loop st1 participants1 messages1)
      else (st, participants, messages))"
  by pat_completeness auto
termination
  by (relation "measure (\<lambda>(st, ps, ms). length (tokens st) - position st)")
     (auto intro: sequence_step_measure)

declare sequence_loop.simps [simp del]

definition parseSequenceDiagram :: "Parser \<Rightarrow> ASTNode \<times> Parser" where
  \<comment> \<open>\<open>validateSequenceDiagram\<close> has an empty body\<close>
  "parseSequenceDiagram st =
     (let startToken = currentToken st
      in case sequence_loop (advance st) [] [] of
           (st1, participants, messages) \<Rightarrow>
             (SequenceNode (tline startToken) (tcolumn startToken) participants messages, st1))"

subsection \<open>Class-diagram and state-diagram grammars\<close>

definition class_step :: "Parser \<Rightarrow> Parser" where
  \<comment> \<open>the body of the loop of \<open>parseClassDiagram\<close>\<close>
  "class_step st =
     (let token = currentToken st
      in if ttype token = DIRECTIVE then advance st
         else if tvalue token = ''classDef'' then parseClassDef st
         else if tvalue token = ''class'' then
           (let st1 = advance st;
                st2 = (if ttype (currentToken st1) = IDENTIFIER then advance st1 else st1)
            in if ttype (currentToken st2) = IDENTIFIER then advance st2 else st2)
         else if isStylingKeyword (tvalue token) then
           skipUntilSemicolon
             (addError token (tvalue token @ '' directive is not supported in class diagrams'')
                ''UNSUPPORTED_STYLING_DIRECTIVE''
                (Some ''Only classDef and class directives are supported in class diagrams'') st)
         else if ttype token = DOUBLE_PAREN_OPEN \<or> ttype token = DOUBLE_PAREN_CLOSE then
           advance (addError token ''Double-parentheses syntax ((text)) is not supported in class diagrams''
                      ''UNSUPPORTED_NODE_SHAPE'' (Some ''Use standard class syntax instead'') st)
         else advance st)"

definition state_step :: "Parser \<Rightarrow> Parser" where
  \<comment> \<open>the body of the loop of \<open>parseStateDiagram\<close>\<close>
  "state_step st =
     (let token = currentToken st
      in if ttype token = DIRECTIVE then advance st
         else if tvalue token = ''classDef'' then parseClassDef st
         else if tvalue token = ''class'' then parseClassAssignment st
         else if isStylingKeyword (tvalue token) then
           skipUntilSemicolon
             (addError token (tvalue token @ '' directive is not supported in state diagrams'')
                ''UNSUPPORTED_STYLING_DIRECTIVE''
                (Some ''Only classDef and class directives are supported in state diagrams'') st)
         else advance st)"

lemma progress_advance_addError: "\<not> isAtEnd st \<Longrightarrow> progress st (advance (addError t m c s st))"
  by (rule frame_progress [OF frame_addError0 progress_advance0]) simp

lemma progress_parseClassDef0: "\<not> isAtEnd st \<Longrightarrow> progress st (parseClassDef st)"
  by (simp add: parseClassDef_def Let_def frame_simps)

lemma progress_parseClassAssignment0: "\<not> isAtEnd st \<Longrightarrow> progress st (parseClassAssignment st)"
  by (simp add: parseClassAssignment_def Let_def frame_simps)

lemma progress_class_step: "\<not> isAtEnd st \<Longrightarrow> progress st (class_step st)"
  by (simp add: class_step_def Let_def frame_simps progress_parseClassDef0
                progress_skipUntilSemicolon_addError progress_advance_addError)

lemma progress_state_step: "\<not> isAtEnd st \<Longrightarrow> progress st (state_step st)"
  by (simp add: state_step_def Let_def frame_simps progress_parseClassDef0
                progress_parseClassAssignment0 progress_skipUntilSemicolon_addError)

function class_loop :: "Parser \<Rightarrow> Parser" where
  "class_loop st =
     (if \<not> isAtEnd st \<and> ttype (currentToken st) \<noteq> EOF then class_loop (class_step st) else st)"
  by pat_completeness auto
termination
  by (relation "measure (\<lambda>st. length (tokens st) - position st)")
     (auto intro: progress_measure progress_class_step)

declare class_loop.simps [simp del]

function state_loop :: "Parser \<Rightarrow> Parser" where
  "state_loop st =
     (if \<not> isAtEnd st \<and> ttype (currentToken st) \<noteq> EOF then state_loop (state_step st) else st)"
  by pat_completeness auto
termination
  by (relation "measure (\<lambda>st. length (tokens st) - position st)")
     (auto intro: progress_measure progress_state_step)

declare state_loop.simps [simp del]

definition parseClassDiagram :: "Parser \<Rightarrow> ASTNode \<times> Parser" where
  "parseClassDiagram st =
     (let startToken = currentToken st
      in (PlainNode ''class'' (tline startToken) (tcolumn startToken), class_loop (advance st)))"

definition parseStateDiagram :: "Parser \<Rightarrow> ASTNode \<times> Parser" where
  "parseStateDiagram st =
     (let startToken = currentToken st
      in (PlainNode ''state'' (tline startToken) (tcolumn startToken), state_loop (advance st)))"

subsection \<open>The grammars that consume their diagram to the end\<close>

definition parseToEnd :: "string \<Rightarrow> Parser \<Rightarrow> ASTNode \<times> Parser" where
  \<comment> \<open>the common body of \<open>parsePieChart\<close>, \<open>parseJourney\<close>, \<open>parseGitgraph\<close>, \<open>parseMindmap\<close>,
      \<open>parseTimeline\<close>, \<open>parseGantt\<close> and \<open>parseERDiagram\<close>, which differ in the \<open>type\<close> they
      return\<close>
  "parseToEnd ty st =
     (let startToken = currentToken st
      in (PlainNode ty (tline startToken) (tcolumn startToken), skipToEnd (advance st)))"

definition parsePieChart :: "Parser \<Rightarrow> ASTNode \<times> Parser" where
  "parsePieChart = parseToEnd ''pie''"

definition parseJourney :: "Parser \<Rightarrow> ASTNode \<times> Parser" where
  "parseJourney = parseToEnd ''journey''"

definition parseGitgraph :: "Parser \<Rightarrow> ASTNode \<times> Parser" where
  "parseGitgraph = parseToEnd ''gitgraph''"

definition parseMindmap :: "Parser \<Rightarrow> ASTNode \<times> Parser" where
  "parseMindmap = parseToEnd ''mindmap''"

definition parseTimeline :: "Parser \<Rightarrow> ASTNode \<times> Parser" where
  "parseTimeline = parseToEnd ''timeline''"

definition parseGantt :: "Parser \<Rightarrow> ASTNode \<times> Parser" where
  "parseGantt = parseToEnd ''gantt''"

definition parseERDiagram :: "Parser \<Rightarrow> ASTNode \<times> Parser" where
  "parseERDiagram = parseToEnd ''er''"

subsection \<open>Block-diagram grammar\<close>

definition block_step :: "Parser \<Rightarrow> nat option \<Rightarrow> BlockElement list
    \<Rightarrow> Parser \<times> nat option \<times> BlockElement list" where
  \<comment> \<open>the body of the loop of \<open>parseBlockDiagram\<close>\<close>
  "block_step st columns blocks =
     (let token = currentToken st
      in if tvalue token = ''columns'' then
           (let st1 = advance st
            in if ttype (currentToken st1) = NUMBER
               then (advance st1, Some (parseInt (tvalue (currentToken st1))), blocks)
               else (st1, columns, blocks))
         else if ttype token = IDENTIFIER then
           (let st1 = advance st
            in if ttype (currentToken st1) = BRACKET_OPEN then
                 (let st2 = advance st1;
                      lab = (if ttype (currentToken st2) = STRING
                               then (unquote (tvalue (currentToken st2)), advance st2)
                             else if ttype (currentToken st2) = IDENTIFIER
                               then (tvalue (currentToken st2), advance st2)
                             else ([], st2));
                      st3 = (if ttype (currentToken (snd lab)) = BRACKET_CLOSE then advance (snd lab)
                             else snd lab)
                  in (st3, columns,
                      blocks @ [\<lparr>bline = tline token, bcolumn = tcolumn token, bid = tvalue token,
                                 blabel = fst lab\<rparr>]))
               else (st1, columns, blocks))
         else (advance st, columns, blocks))"

lemma progress_block_step: "\<not> isAtEnd st \<Longrightarrow> progress st (fst (block_step st cs bs))"
  by (simp add: block_step_def Let_def frame_simps)

lemma block_step_measure:
  "\<not> isAtEnd st \<Longrightarrow>
     (case block_step st cs bs of (st1, cs1, bs1) \<Rightarrow> length (tokens st1) - position st1)
       < length (tokens st) - position st"
  using progress_block_step [of st cs bs] by (simp add: case_prod_beta progress_measure)

function block_loop :: "Parser \<Rightarrow> nat option \<Rightarrow> BlockElement list
    \<Rightarrow> Parser \<times> nat option \<times> BlockElement list" where
  "block_loop st columns blocks =
     (if \<not> isAtEnd st \<and> ttype (currentToken st) \<noteq> EOF then
        (case block_step st columns blocks of
           (st1, columns1, blocks1) \<Rightarrow> block_loop st1 columns1 blocks1)
      else (st, columns, blocks))"
  by pat_completeness auto
termination
  by (relation "measure (\<lambda>(st, cs, bs). length (tokens st) - position st)")
     (auto intro: block_step_measure)

declare block_loop.simps [simp del]

definition parseBlockDiagram :: "Parser \<Rightarrow> ASTNode \<times> Parser" where
  "parseBlockDiagram st =
     (let startToken = currentToken st
      in case block_loop (advance st) None [] of
           (st1, columns, blocks) \<Rightarrow>
             (BlockDiagramNode (tline startToken) (tcolumn startToken) columns blocks, st1))"

subsection \<open>XY-chart grammar\<close>

definition isValidIdentifier_xychart_axis :: "string \<Rightarrow> bool" where
  \<comment> \<open>\<open>isValidIdentifier(identifier, 'xychart-axis')\<close>, that is
      \<open>!/['"&<>(){}[\]|\\\/\s]/.test(identifier)\<close>\<close>
  "isValidIdentifier_xychart_axis identifier =
     (\<not> list_ex (\<lambda>c. c \<in> set [CHR 0x27, CHR 0x22, CHR ''&'', CHR ''<'', CHR ''>'', CHR ''('', CHR '')'',
                                 CHR ''{'', CHR ''}'', CHR ''['', CHR '']'', CHR ''|'', CHR 0x5C, CHR ''/'']
                      \<or> isSpace c) identifier)"

fun xAxis_loop :: "nat \<Rightarrow> Parser \<Rightarrow> string list \<Rightarrow> (string list \<times> Parser) option" where
  \<comment> \<open>\<open>while (this.currentToken().type !== BRACKET_CLOSE)\<close> of the \<open>x-axis\<close> branch\<close>
  "xAxis_loop 0 st xAxis = None"
| "xAxis_loop (Suc n) st xAxis =
     (if ttype (currentToken st) \<noteq> BRACKET_CLOSE then
        (let token = currentToken st;
             st1 = (if ttype token \<noteq> STRING \<and> ttype token = IDENTIFIER
                       \<and> \<not> isValidIdentifier_xychart_axis (tvalue token)
                    then addError token
                           (''Identifier '' @ [CHR 0x27] @ tvalue token @ [CHR 0x27]
                              @ '' contains special characters and should be quoted'')
                           ''INVALID_IDENTIFIER''
                           (Some (''Use '' @ [CHR 0x22] @ tvalue token @ [CHR 0x22] @ '' instead of ''
                                    @ tvalue token)) st
                    else st);
             xAxis1 = (if ttype token = STRING then xAxis @ [unquote (tvalue token)]
                       else if ttype token = IDENTIFIER then xAxis @ [tvalue token]
                       else xAxis);
             st2 = advance st1;
             st3 = (if ttype (currentToken st2) = COMMA then advance st2 else st2)
         in xAxis_loop n st3 xAxis1)
      else Some (xAxis, st))"

fun values_loop :: "nat \<Rightarrow> Parser \<Rightarrow> nat list \<Rightarrow> (nat list \<times> Parser) option" where
  \<comment> \<open>\<open>while (this.currentToken().type !== BRACKET_CLOSE)\<close> of the \<open>bar\<close>/\<open>line\<close> branch\<close>
  "values_loop 0 st vs = None"
| "values_loop (Suc n) st vs =
     (if ttype (currentToken st) \<noteq> BRACKET_CLOSE then
        (let vs1 = (if ttype (currentToken st) = NUMBER then vs @ [parseInt (tvalue (currentToken st))]
                    else vs);
             st1 = advance st;
             st2 = (if ttype (currentToken st1) = COMMA then advance st1 else st1)
         in values_loop n st2 vs1)
      else Some (vs, st))"

text \<open>The local variables of \<open>parseXYChart\<close>.\<close>

record XYChart =
  title :: "string option"
  xAxis :: "string list"
  yAxis :: "YAxis option"
  chartData :: "(SeriesType \<times> nat list) list"

definition xychart_step :: "nat \<Rightarrow> Parser \<Rightarrow> XYChart \<Rightarrow> (Parser \<times> XYChart) option" where
  \<comment> \<open>the body of the loop of \<open>parseXYChart\<close>\<close>
  "xychart_step n st ch =
     (let token = currentToken st
      in if ttype token = DIRECTIVE then Some (advance st, ch)
         else if tvalue token = ''title'' then
           (let st1 = advance st
            in if ttype (currentToken st1) = STRING
               then Some (advance st1, ch\<lparr>title := Some (unquote (tvalue (currentToken st1)))\<rparr>)
               else Some (st1, ch))
         else if tvalue token = ''x-axis'' then
           (let st1 = advance st
            in if ttype (currentToken st1) = BRACKET_OPEN then
                 (case xAxis_loop n (advance st1) (xAxis ch) of
                    None \<Rightarrow> None
                  | Some (xs, st2) \<Rightarrow> Some (advance st2, ch\<lparr>xAxis := xs\<rparr>))
               else
                 Some (addError (currentToken st1) ''x-axis must be followed by a bracketed list of labels''
                         ''INVALID_X_AXIS_SYNTAX''
                         (Some (''Use x-axis ['' @ [CHR 0x22] @ ''Label1'' @ [CHR 0x22] @ '', ''
                                  @ [CHR 0x22] @ ''Label2'' @ [CHR 0x22] @ '', '' @ [CHR 0x22]
                                  @ ''Label3'' @ [CHR 0x22] @ ''] format'')) st1, ch))
         else if tvalue token = ''y-axis'' then
           (let st1 = advance st
            in if ttype (currentToken st1) = STRING then
                 (let lab = unquote (tvalue (currentToken st1));
                      st2 = advance st1
                  in if tvalue (currentToken st2) = ''min'' then
                       Some (advance (addError (currentToken st2)
                                        (''y-axis syntax does not support '' @ [CHR 0x22] @ ''min''
                                           @ [CHR 0x22] @ '' keyword'')
                                        ''INVALID_Y_AXIS_SYNTAX''
                                        (Some (''Use format: y-axis '' @ [CHR 0x22] @ ''label''
                                                 @ [CHR 0x22] @ '' minValue --> maxValue'')) st2), ch)
                     else if ttype (currentToken st2) = NUMBER then
                       (let mn = parseInt (tvalue (currentToken st2));
                            st3 = advance st2
                        in if tvalue (currentToken st3) = ''-->'' then
                             (let st4 = advance st3
                              in if ttype (currentToken st4) = NUMBER
                                 then Some (advance st4,
                                            ch\<lparr>yAxis := Some \<lparr>ylabel = lab, ymin = mn,
                                                                ymax = parseInt (tvalue (currentToken st4))\<rparr>\<rparr>)
                                 else Some (st4, ch))
                           else Some (st3, ch))
                     else Some (st2, ch))
               else Some (st1, ch))
         else if tvalue token = ''bar'' \<or> tvalue token = ''line'' then
           (let st1 = advance st
            in if ttype (currentToken st1) = BRACKET_OPEN then
                 (case values_loop n (advance st1) [] of
                    None \<Rightarrow> None
                  | Some (vs, st2) \<Rightarrow>
                      Some (advance st2,
                            ch\<lparr>chartData := chartData ch
                                  @ [(if tvalue token = ''bar'' then Bar else Line, vs)]\<rparr>))
               else Some (st1, ch))
         else if tvalue token = ''area'' \<or> tvalue token = ''scatter'' then
           Some (advance (addError token
                            (''Chart type '' @ [CHR 0x27] @ tvalue token @ [CHR 0x27]
                               @ '' is not supported by Mermaid CLI'')
                            ''UNSUPPORTED_CHART_TYPE'' (Some ''Use bar or line chart types instead'') st), ch)
         else if tvalue token = ''series'' then
           Some (advance (addError token
                            ([CHR 0x27] @ ''series'' @ [CHR 0x27] @ '' syntax is not supported by Mermaid CLI'')
                            ''UNSUPPORTED_SERIES_SYNTAX''
                            (Some (''Use bar or line directly instead of series '' @ [CHR 0x22] @ ''name''
                                     @ [CHR 0x22] @ '' type chart'')) st), ch)
         else Some (advance st, ch))"

fun xychart_loop :: "nat \<Rightarrow> Parser \<Rightarrow> XYChart \<Rightarrow> (Parser \<times> XYChart) option" where
  "xychart_loop 0 st ch = None"
| "xychart_loop (Suc n) st ch =
     (if \<not> isAtEnd st \<and> ttype (currentToken st) \<noteq> EOF then
        (case xychart_step n st ch of
           None \<Rightarrow> None
         | Some (st1, ch1) \<Rightarrow> xychart_loop n st1 ch1)
      else Some (st, ch))"

definition validateXYChart :: "(SeriesType \<times> nat list) list \<Rightarrow> Parser \<Rightarrow> Parser" where
  \<comment> \<open>of the four parameters of the source only \<open>data\<close> is read\<close>
  "validateXYChart dat st =
     (if length dat = 0
      then addError \<lparr>ttype = IDENTIFIER, tvalue = ''data'', tline = 1, tcolumn = 1, tposition = 0\<rparr>
             ''No data provided for chart'' ''MISSING_DATA''
             (Some ''Add bar, line, or other data series to the chart'') st
      else st)"

definition parseXYChart :: "nat \<Rightarrow> Parser \<Rightarrow> (ASTNode \<times> Parser) option" where
  "parseXYChart n st =
     (let startToken = currentToken st
      in case xychart_loop n (advance st) \<lparr>title = None, xAxis = [], yAxis = None, chartData = []\<rparr> of
           None \<Rightarrow> None
         | Some (st1, ch) \<Rightarrow>
             Some (XYChartNode (tline startToken) (tcolumn startToken) (title ch) (xAxis ch)
                     (case yAxis ch of Some y \<Rightarrow> y | None \<Rightarrow> \<lparr>ylabel = [], ymin = 0, ymax = 100\<rparr>)
                     (chartData ch),
                   validateXYChart (chartData ch) st1))"

subsection \<open>The dispatcher and the entry point of the class\<close>

function skipDirectives :: "Parser \<Rightarrow> Parser" where
  \<comment> \<open>\<open>while (!this.isAtEnd() && this.currentToken().type === DIRECTIVE) this.advance()\<close>\<close>
  "skipDirectives st =
     (if \<not> isAtEnd st \<and> ttype (currentToken st) = DIRECTIVE then skipDirectives (advance st) else st)"
  by pat_completeness auto
termination
  by (relation "measure (\<lambda>st. length (tokens st) - position st)")
     (auto simp: isAtEnd_def advance_def)

declare skipDirectives.simps [simp del]

definition parseDiagram :: "nat \<Rightarrow> Parser \<Rightarrow> (ASTNode \<times> Parser) option" where
  "parseDiagram n st0 =
     (let st = skipDirectives st0;
          token = currentToken st
      in if ttype token = GRAPH \<or> ttype token = FLOWCHART then parseFlowchart n st
         else if ttype token = SEQUENCE_DIAGRAM then Some (parseSequenceDiagram st)
         else if ttype token = CLASS_DIAGRAM then Some (parseClassDiagram st)
         else if ttype token = STATE_DIAGRAM \<or> ttype token = STATE_DIAGRAM_V2 then Some (parseStateDiagram st)
         else if ttype token = PIE then Some (parsePieChart st)
         else if ttype token = JOURNEY then Some (parseJourney st)
         else if ttype token = XYCHART_BETA then parseXYChart n st
         else if ttype token = GITGRAPH then Some (parseGitgraph st)
         else if ttype token = MINDMAP then Some (parseMindmap st)
         else if ttype token = TIMELINE then Some (parseTimeline st)
         else if ttype token = GANTT then Some (parseGantt st)
         else if ttype token = ER_DIAGRAM then Some (parseERDiagram st)
         else if ttype token = BLOCK_BETA then Some (parseBlockDiagram st)
         else Some (PlainNode ''unknown'' (tline token) (tcolumn token),
                    addError token (''Unsupported diagram type: '' @ tvalue token) ''PARSE_ERROR'' None st))"

definition diagramTypeOf :: "TokenType \<Rightarrow> string" where
  \<comment> \<open>the \<open>switch\<close> of \<open>getDiagramType\<close>\<close>
  "diagramTypeOf t =
     (if t = GRAPH \<or> t = FLOWCHART then ''flowchart''
      else if t = SEQUENCE_DIAGRAM then ''sequence''
      else if t = CLASS_DIAGRAM then ''class''
      else if t = STATE_DIAGRAM \<or> t = STATE_DIAGRAM_V2 then ''state''
      else if t = ER_DIAGRAM then ''er''
      else if t = JOURNEY then ''journey''
      else if t = GANTT then ''gantt''
      else if t = PIE then ''pie''
      else if t = GITGRAPH then ''gitgraph''
      else if t = MINDMAP then ''mindmap''
      else if t = TIMELINE then ''timeline''
      else if t = XYCHART_BETA then ''xychart''
      else if t = BLOCK_BETA then ''block''
      else ''unknown'')"

definition getDiagramType :: "Parser \<Rightarrow> string" where
  "getDiagramType st =
     (case find (\<lambda>t. ttype t \<noteq> DIRECTIVE) (tokens st) of
        None \<Rightarrow> ''unknown''
      | Some firstDiagramToken \<Rightarrow> diagramTypeOf (ttype firstDiagramToken))"

definition Parser_new :: "string \<Rightarrow> Parser" where
  \<comment> \<open>the constructor\<close>
  "Parser_new s = \<lparr>tokens = tokenize s, position = 0, perrors = [], linkCount = 0\<rparr>"

text \<open>
  \<open>parse\<close>. Nothing in the model of \<open>parseDiagram\<close> throws, so the \<open>try\<close> block always
  returns; the \<open>catch\<close> block is \<open>parse_catch\<close>, for an error whose message is \<open>m\<close> thrown
  in the state \<open>st\<close>. \<open>validateSingleDiagramType\<close> has an empty body.
\<close>

definition parse :: "nat \<Rightarrow> Parser \<Rightarrow> ValidationResult option" where
  "parse n st0 =
     (case parseDiagram n (st0\<lparr>perrors := [], position := 0, linkCount := 0\<rparr>) of
        None \<Rightarrow> None
      | Some (a, st) \<Rightarrow>
          Some \<lparr>isValid = (length (perrors st) = 0), diagramType = getDiagramType st,
                errors = perrors st, ast = Some a\<rparr>)"

definition parse_catch :: "Parser \<Rightarrow> string \<Rightarrow> ValidationResult" where
  "parse_catch st m =
     \<lparr>isValid = False, diagramType = ''unknown'',
      errors = perrors (addError (currentToken st) (''Parse error: '' @ m) ''PARSE_ERROR'' None st),
      ast = None\<rparr>"


section \<open>The public entry point (src/index.ts)\<close>

text \<open>The values a caller can pass for \<open>mermaidCode\<close>, by what \<open>typeof\<close> tells apart.\<close>

datatype JSValue = JSUndefined | JSNull | JSBoolean bool | JSNumber int | JSObject | JSString string

definition validatedAgainst :: string where
  \<comment> \<open>Modelled from the spec: \<open>MERMAID_VERSION_INFO.validatedAgainst\<close> of \<open>src/version.ts\<close>,
      which is not among the sources. The spec calls it the statically configured
      validated-against version string; the README prints its value. No theorem but the
      concrete ones depends on the value.\<close>
  "validatedAgainst = ''11.12.0''"

definition isMermaidVersionSupported :: "string \<Rightarrow> bool" where
  "isMermaidVersionSupported version = (version = validatedAgainst)"

definition inputError :: "string \<Rightarrow> string \<Rightarrow> ValidationResult" where
  \<comment> \<open>the object literal of the two early returns and of the \<open>catch\<close> block\<close>
  "inputError msg c =
     \<lparr>isValid = False, diagramType = ''unknown'',
      errors = [\<lparr>line = 1, column = 1, message = msg, code = c, suggestion = None\<rparr>],
      ast = None\<rparr>"

definition versionMismatch :: "string \<Rightarrow> ValidationError" where
  "versionMismatch target =
     \<lparr>line = 1, column = 1,
      message = ''This validator was tested against Mermaid '' @ validatedAgainst
                  @ '', but you'' @ [CHR 0x27] @ ''re requesting validation for version '' @ target
                  @ ''. Compatibility cannot be guaranteed.'',
      code = ''VERSION_MISMATCH'',
      suggestion = Some (''Use Mermaid version '' @ validatedAgainst
                           @ '' or update this validator to support version '' @ target)\<rparr>"

definition checkVersion :: "string option \<Rightarrow> ValidationResult \<Rightarrow> ValidationResult" where
  \<comment> \<open>\<open>if (targetMermaidVersion && !isMermaidVersionSupported(targetMermaidVersion))\<close>: an
      absent and an empty target are falsy\<close>
  "checkVersion targetMermaidVersion result =
     (case targetMermaidVersion of
        None \<Rightarrow> result
      | Some target \<Rightarrow>
          if target \<noteq> [] \<and> \<not> isMermaidVersionSupported target
          then result\<lparr>errors := errors result @ [versionMismatch target], isValid := False\<rparr>
          else result)"

definition validateMermaid :: "nat \<Rightarrow> JSValue \<Rightarrow> string option \<Rightarrow> ValidationResult option" where
  "validateMermaid n mermaidCode targetMermaidVersion =
     (case mermaidCode of
        JSString s \<Rightarrow>
          if s = [] \<or> length (trim s) = 0 then Some (inputError ''Empty mermaid code'' ''EMPTY_INPUT'')
          else (case parse n (Parser_new s) of
                  None \<Rightarrow> None
                | Some result \<Rightarrow> Some (checkVersion targetMermaidVersion result))
      | _ \<Rightarrow> Some (inputError ''Input must be a string'' ''INVALID_INPUT_TYPE''))"

definition validateMermaid_catch :: "string \<Rightarrow> ValidationResult" where
  \<comment> \<open>the \<open>catch\<close> block, for an error whose message is \<open>m\<close>\<close>
  "validateMermaid_catch m = inputError (''Validation error: '' @ m) ''VALIDATION_ERROR''"

section \<open>Properties\<close>

subsection \<open>The entry point\<close>

lemma all_dropWhile: "(\<forall>x\<in>set (dropWhile P s). P x) \<longleftrightarrow> (\<forall>x\<in>set s. P x)"
proof
  assume a: "\<forall>x\<in>set (dropWhile P s). P x"
  have "dropWhile P s = []"
  proof (rule ccontr)
    assume ne: "dropWhile P s \<noteq> []"
    then have "\<not> P (hd (dropWhile P s))" by (rule hd_dropWhile)
    moreover from ne have "hd (dropWhile P s) \<in> set (dropWhile P s)" by simp
    ultimately show False using a by blast
  qed
  then show "\<forall>x\<in>set s. P x" by (metis dropWhile_eq_Nil_conv)
next
  assume "\<forall>x\<in>set s. P x"
  then show "\<forall>x\<in>set (dropWhile P s). P x" by (blast dest: set_dropWhileD)
qed

lemma trim_empty_iff: "trim s = [] \<longleftrightarrow> list_all isSpace s"
proof -
  have "trim s = [] \<longleftrightarrow> dropWhile isSpace (rev (dropWhile isSpace s)) = []"
    by (simp add: trim_def)
  also have "\<dots> \<longleftrightarrow> (\<forall>x\<in>set (dropWhile isSpace s). isSpace x)"
    by (metis dropWhile_eq_Nil_conv set_rev)
  also have "\<dots> \<longleftrightarrow> list_all isSpace s"
    by (simp add: all_dropWhile list_all_iff)
  finally show ?thesis .
qed

lemma checkVersion_valid: "(isValid r \<longleftrightarrow> errors r = []) \<Longrightarrow>
    (isValid (checkVersion v r) \<longleftrightarrow> errors (checkVersion v r) = [])"
  by (simp add: checkVersion_def split: option.split)

lemma parse_valid: "parse n st = Some r \<Longrightarrow> (isValid r \<longleftrightarrow> errors r = [])"
  by (auto simp: parse_def split: option.splits)

text \<open>
  C1. Whenever \<open>validateMermaid\<close> returns a result, \<open>isValid\<close> is true exactly when the list
  of diagnostics is empty: on the two early returns for the shape of the input, on the
  parser's result, and after the diagnostic for a version mismatch has been appended. The
  same holds for what \<open>parse\<close> returns and for the results the two \<open>catch\<close> blocks build.
\<close>

theorem validateMermaid_isValid_iff:
  "(validateMermaid n c v = Some r \<longrightarrow> (isValid r \<longleftrightarrow> errors r = []))
   \<and> (parse n st = Some r' \<longrightarrow> (isValid r' \<longleftrightarrow> errors r' = []))
   \<and> (isValid (parse_catch st m) \<longleftrightarrow> errors (parse_catch st m) = [])
   \<and> (isValid (validateMermaid_catch m) \<longleftrightarrow> errors (validateMermaid_catch m) = [])"
proof (intro conjI impI)
  assume a: "validateMermaid n c v = Some r"
  show "isValid r \<longleftrightarrow> errors r = []"
  proof (cases c)
    case (JSString s)
    show ?thesis
    proof (cases "s = [] \<or> length (trim s) = 0")
      case True
      with a JSString show ?thesis by (auto simp: validateMermaid_def inputError_def)
    next
      case False
      with a JSString obtain r0 where p: "parse n (Parser_new s) = Some r0" and r: "r = checkVersion v r0"
        by (auto simp: validateMermaid_def split: option.splits)
      from parse_valid [OF p] show ?thesis unfolding r by (rule checkVersion_valid)
    qed
  qed (use a in \<open>auto simp: validateMermaid_def inputError_def\<close>)
next
  assume "parse n st = Some r'"
  then show "isValid r' \<longleftrightarrow> errors r' = []" by (rule parse_valid)
next
  show "isValid (parse_catch st m) \<longleftrightarrow> errors (parse_catch st m) = []"
    by (simp add: parse_catch_def addError_def)
next
  show "isValid (validateMermaid_catch m) \<longleftrightarrow> errors (validateMermaid_catch m) = []"
    by (simp add: validateMermaid_catch_def inputError_def)
qed

theorem validateMermaid_isValid_iff_witness:
  "validateMermaid 20 (JSString ''flowchart TD\<newline>A --> B'') (Some ''10.0.0'') =
     Some \<lparr>isValid = False, diagramType = ''flowchart'', errors = [versionMismatch ''10.0.0''],
           ast = Some (FlowchartNode 1 10 (Some ''TD'')
                         [NodeEl 2 2 ''A'' None Rect, ArrowEl 2 4 None (Some ''B'')])\<rparr>
   \<and> (isValid \<lparr>isValid = False, diagramType = ''flowchart'', errors = [versionMismatch ''10.0.0''],
           ast = Some (FlowchartNode 1 10 (Some ''TD'')
                         [NodeEl 2 2 ''A'' None Rect, ArrowEl 2 4 None (Some ''B'')])\<rparr>
        \<longleftrightarrow> errors \<lparr>isValid = False, diagramType = ''flowchart'', errors = [versionMismatch ''10.0.0''],
           ast = Some (FlowchartNode 1 10 (Some ''TD'')
                         [NodeEl 2 2 ''A'' None Rect, ArrowEl 2 4 None (Some ''B'')])\<rparr> = [])
   \<and> parse 20 (Parser_new ''flowchart TD\<newline>A --> B'') =
       Some \<lparr>isValid = True, diagramType = ''flowchart'', errors = [],
             ast = Some (FlowchartNode 1 10 (Some ''TD'')
                           [NodeEl 2 2 ''A'' None Rect, ArrowEl 2 4 None (Some ''B'')])\<rparr>"
proof -
  have e: "validateMermaid 20 (JSString ''flowchart TD\<newline>A --> B'') (Some ''10.0.0'') =
     Some \<lparr>isValid = False, diagramType = ''flowchart'', errors = [versionMismatch ''10.0.0''],
           ast = Some (FlowchartNode 1 10 (Some ''TD'')
                         [NodeEl 2 2 ''A'' None Rect, ArrowEl 2 4 None (Some ''B'')])\<rparr>"
    by code_simp
  have p: "parse 20 (Parser_new ''flowchart TD\<newline>A --> B'') =
       Some \<lparr>isValid = True, diagramType = ''flowchart'', errors = [],
             ast = Some (FlowchartNode 1 10 (Some ''TD'')
                           [NodeEl 2 2 ''A'' None Rect, ArrowEl 2 4 None (Some ''B'')])\<rparr>"
    by code_simp
  from validateMermaid_isValid_iff
         [where n = 20 and c = "JSString ''flowchart TD\<newline>A --> B''" and v = "Some ''10.0.0''"
            and st = "Parser_new ''flowchart TD\<newline>A --> B''"] e p
  show ?thesis by simp
qed

text \<open>
  C3. For an input that is not a string (\<open>null\<close> and \<open>undefined\<close> among them) and for a
  string that is empty or holds white space only, \<open>validateMermaid\<close> returns a result with
  exactly one diagnostic, \<open>diagramType = "unknown"\<close> and no \<open>ast\<close>. The code of the
  diagnostic is \<open>INVALID_INPUT_TYPE\<close> for every input that is not a string and
  \<open>EMPTY_INPUT\<close> for a blank string. The result is the same for every fuel and every target
  version: it is built without the tokenizer and the parser.
\<close>

theorem validateMermaid_input_shape:
  assumes "case c of JSString s \<Rightarrow> list_all isSpace s | _ \<Rightarrow> True"
  shows "validateMermaid n c v =
           Some \<lparr>isValid = False, diagramType = ''unknown'',
                 errors = [\<lparr>line = 1, column = 1,
                            message = (case c of JSString s \<Rightarrow> ''Empty mermaid code''
                                       | _ \<Rightarrow> ''Input must be a string''),
                            code = (case c of JSString s \<Rightarrow> ''EMPTY_INPUT''
                                    | _ \<Rightarrow> ''INVALID_INPUT_TYPE''),
                            suggestion = None\<rparr>],
                 ast = None\<rparr>"
proof (cases c)
  case (JSString s)
  with assms have "trim s = []" by (simp add: trim_empty_iff)
  with JSString show ?thesis by (simp add: validateMermaid_def inputError_def)
qed (simp_all add: validateMermaid_def inputError_def)

theorem validateMermaid_input_shape_witness:
  "(case JSString [CHR '' '', CHR 0x0A, CHR 0x09] of JSString s \<Rightarrow> list_all isSpace s | _ \<Rightarrow> True)
   \<and> map code (errors (the (validateMermaid 0 (JSString [CHR '' '', CHR 0x0A, CHR 0x09]) None)))
       = [''EMPTY_INPUT'']
   \<and> map code (errors (the (validateMermaid 0 JSNull (Some ''10.0.0'')))) = [''INVALID_INPUT_TYPE'']
   \<and> map code (errors (the (validateMermaid 0 (JSNumber 123) None))) = [''INVALID_INPUT_TYPE'']"
proof -
  have h: "case JSString [CHR '' '', CHR 0x0A, CHR 0x09] of JSString s \<Rightarrow> list_all isSpace s | _ \<Rightarrow> True"
    by (simp add: isSpace_def)
  show ?thesis
    using h validateMermaid_input_shape [OF h, of 0 None]
      validateMermaid_input_shape [of JSNull 0 "Some ''10.0.0''"]
      validateMermaid_input_shape [of "JSNumber 123" 0 None]
    by simp
qed

text \<open>
  C8, as the claim states it, fails in two ways. An empty target version is a string
  different from the validated-against version, and it is ignored: the valid flowchart
  below stays valid. And on a blank input the early return comes before the check, so no
  \<open>VERSION_MISMATCH\<close> is appended.
\<close>

theorem validateMermaid_version_counterexample:
  "[] \<noteq> validatedAgainst
   \<and> validateMermaid 20 (JSString ''flowchart TD\<newline>A --> B'') (Some []) =
       Some \<lparr>isValid = True, diagramType = ''flowchart'', errors = [],
             ast = Some (FlowchartNode 1 10 (Some ''TD'')
                           [NodeEl 2 2 ''A'' None Rect, ArrowEl 2 4 None (Some ''B'')])\<rparr>
   \<and> ''10.0.0'' \<noteq> validatedAgainst
   \<and> map code (errors (the (validateMermaid 20 (JSString []) (Some ''10.0.0'')))) = [''EMPTY_INPUT'']"
  by code_simp

text \<open>
  C8, amended. On a string that is not blank and on which the parser returns \<open>r\<close>:
  without a target version the result is \<open>r\<close>; with a target that is not empty and differs
  from the validated-against version the result is \<open>r\<close> with exactly one diagnostic
  appended, of code \<open>VERSION_MISMATCH\<close>, and \<open>isValid\<close> false, so \<open>diagramType\<close> and \<open>ast\<close>
  are those of \<open>r\<close>; with a target that is empty or equal to the validated-against version
  the result is \<open>r\<close>.
\<close>

theorem validateMermaid_version:
  assumes "\<not> list_all isSpace s" and "parse n (Parser_new s) = Some r"
  shows "validateMermaid n (JSString s) None = Some r
         \<and> (t \<noteq> [] \<and> t \<noteq> validatedAgainst \<longrightarrow>
              validateMermaid n (JSString s) (Some t) =
                Some \<lparr>isValid = False, diagramType = diagramType r,
                      errors = errors r @ [versionMismatch t], ast = ast r\<rparr>
              \<and> code (versionMismatch t) = ''VERSION_MISMATCH'')
         \<and> (t = [] \<or> t = validatedAgainst \<longrightarrow> validateMermaid n (JSString s) (Some t) = Some r)"
proof -
  from assms(1) have "s \<noteq> []" "trim s \<noteq> []" by (auto simp: trim_empty_iff)
  with assms(2) show ?thesis
    by (simp add: validateMermaid_def checkVersion_def isMermaidVersionSupported_def
                  versionMismatch_def)
qed

theorem validateMermaid_version_witness:
  "\<not> list_all isSpace ''flowchart TD\<newline>A --> B''
   \<and> parse 20 (Parser_new ''flowchart TD\<newline>A --> B'') =
       Some \<lparr>isValid = True, diagramType = ''flowchart'', errors = [],
             ast = Some (FlowchartNode 1 10 (Some ''TD'')
                           [NodeEl 2 2 ''A'' None Rect, ArrowEl 2 4 None (Some ''B'')])\<rparr>
   \<and> ''10.0.0'' \<noteq> [] \<and> ''10.0.0'' \<noteq> validatedAgainst
   \<and> validateMermaid 20 (JSString ''flowchart TD\<newline>A --> B'') (Some ''10.0.0'') =
       Some \<lparr>isValid = False, diagramType = ''flowchart'', errors = [versionMismatch ''10.0.0''],
             ast = Some (FlowchartNode 1 10 (Some ''TD'')
                           [NodeEl 2 2 ''A'' None Rect, ArrowEl 2 4 None (Some ''B'')])\<rparr>
   \<and> validateMermaid 20 (JSString ''flowchart TD\<newline>A --> B'') (Some validatedAgainst) =
       Some \<lparr>isValid = True, diagramType = ''flowchart'', errors = [],
             ast = Some (FlowchartNode 1 10 (Some ''TD'')
                           [NodeEl 2 2 ''A'' None Rect, ArrowEl 2 4 None (Some ''B'')])\<rparr>"
proof -
  have h1: "\<not> list_all isSpace ''flowchart TD\<newline>A --> B''"
    by (simp add: isSpace_def)
  have h2: "parse 20 (Parser_new ''flowchart TD\<newline>A --> B'') =
       Some \<lparr>isValid = True, diagramType = ''flowchart'', errors = [],
             ast = Some (FlowchartNode 1 10 (Some ''TD'')
                           [NodeEl 2 2 ''A'' None Rect, ArrowEl 2 4 None (Some ''B'')])\<rparr>"
    by code_simp
  have h3: "''10.0.0'' \<noteq> validatedAgainst" by (simp add: validatedAgainst_def)
  show ?thesis
    using h1 h2 h3 validateMermaid_version [OF h1 h2, of "''10.0.0''"]
      validateMermaid_version [OF h1 h2, of validatedAgainst]
    by simp
qed

subsection \<open>The tokenizer\<close>

lemma slice_hd:
  "a < length s \<Longrightarrow> slice s a b \<noteq> [] \<Longrightarrow> hd (slice s a b) = s ! a"
  by (cases "b - a") (simp_all add: slice_def hd_drop_conv_nth take_Suc)

definition startsHere :: "Lexer \<Rightarrow> Token \<Rightarrow> bool" where
  \<comment> \<open>a value that is not empty begins with the character at the cursor\<close>
  "startsHere lx t = (tvalue t \<noteq> [] \<longrightarrow> hd (tvalue t) = input lx ! lposition lx)"

lemma startsHere_slice:
  "lposition lx < length (input lx) \<Longrightarrow>
     startsHere lx \<lparr>ttype = ty, tvalue = slice (input lx) (lposition lx) b, tline = l, tcolumn = c,
                    tposition = p\<rparr>"
  by (simp add: startsHere_def slice_hd)

lemma startsHere_readers:
  assumes "lposition lx < length (input lx)"
  shows "startsHere lx (fst (readComment lx))" "startsHere lx (fst (readDirective lx))"
    "startsHere lx (fst (readString lx))" "startsHere lx (fst (readNumber lx))"
    "startsHere lx (fst (readIdentifier lx))"
  using assms
  by (simp_all add: readComment_def readDirective_def readString_def readNumber_def
        readIdentifier_def Let_def startsHere_slice)

lemma startsHere_scanToken:
  assumes "lposition lx < length (input lx)"
  shows "startsHere lx (fst (scanToken lx))"
proof -
  have direct: "\<And>ty v l c p. v \<noteq> [] \<Longrightarrow> hd v = input lx ! lposition lx \<Longrightarrow>
      startsHere lx \<lparr>ttype = ty, tvalue = v, tline = l, tcolumn = c, tposition = p\<rparr>"
    by (simp add: startsHere_def)
  show ?thesis
    using assms
    by (simp add: scanToken_def Let_def tokenHere_def arrowToken_def startsHere_readers direct
          split: option.split)
qed

lemma scanToken_value_hd:
  assumes "lposition lx < length (input lx)" and "tvalue (fst (scanToken lx)) \<noteq> []"
  shows "hd (tvalue (fst (scanToken lx))) = input lx ! lposition lx"
  using startsHere_scanToken [OF assms(1)] assms(2) by (simp add: startsHere_def)

lemma scanToken_equals:
  assumes "input lx ! lposition lx = CHR ''=''"
  shows "tvalue (fst (scanToken lx)) = ''='' \<or> tvalue (fst (scanToken lx)) = ''==>''"
  using assms by (simp add: scanToken_def Let_def tokenHere_def arrowToken_def)

lemma scanToken_not_4:
  assumes "lposition lx < length (input lx)"
  shows "tvalue (fst (scanToken lx)) \<noteq> ''==>>''"
proof
  assume v: "tvalue (fst (scanToken lx)) = ''==>>''"
  with scanToken_value_hd [OF assms] have "input lx ! lposition lx = CHR ''=''" by simp
  from scanToken_equals [OF this] v show False by simp
qed

lemma nextToken_not_4:
  "fst (nextToken lx) = Some t \<Longrightarrow> tvalue t \<noteq> ''==>>''"
proof (induction lx rule: nextToken.induct)
  case (1 lx)
  show ?case
  proof (cases "lposition lx \<ge> length (input lx)")
    case True
    with "1.prems" show ?thesis by (simp add: nextToken.simps)
  next
    case False
    show ?thesis
    proof (cases "isSpace (input lx ! lposition lx)")
      case True
      have "nextToken lx = nextToken (if input lx ! lposition lx = CHR 0x0A then stepLine lx else step lx 1)"
        using False True by (subst nextToken.simps) simp
      with "1.IH" [OF _ True] "1.prems" False show ?thesis by simp
    next
      case nsp: False
      have "nextToken lx = (Some (fst (scanToken lx)), snd (scanToken lx))"
        using False nsp by (subst nextToken.simps) (simp add: case_prod_beta)
      with "1.prems" scanToken_not_4 [of lx] False show ?thesis by auto
    qed
  qed
qed

lemma tokenize_loop_not_4:
  "\<forall>t\<in>set acc. tvalue t \<noteq> ''==>>'' \<Longrightarrow> \<forall>t\<in>set (fst (tokenize_loop lx acc)). tvalue t \<noteq> ''==>>''"
proof (induction lx acc rule: tokenize_loop.induct)
  case (1 lx acc)
  obtain o1 lx1 where nt: "nextToken lx = (o1, lx1)" by (cases "nextToken lx")
  show ?case
  proof (cases o1)
    case None
    with nt "1.prems" show ?thesis by (subst tokenize_loop.simps) simp
  next
    case (Some token)
    with nt nextToken_not_4 [of lx token] have v: "tvalue token \<noteq> ''==>>''" by simp
    show ?thesis
    proof (cases "ttype token \<noteq> EOF")
      case True
      from "1.IH" [OF nt [symmetric] Some True] v "1.prems"
      have "\<forall>t\<in>set (fst (tokenize_loop lx1 (acc @ [token]))). tvalue t \<noteq> ''==>>''" by simp
      with nt Some True show ?thesis by (subst tokenize_loop.simps) simp
    next
      case False
      with nt Some "1.prems" show ?thesis by (subst tokenize_loop.simps) simp
    qed
  qed
qed

text \<open>
  C9. Where the tokenizer stands at the four characters \<open>==>>\<close>, \<open>nextToken\<close> returns an
  \<open>EQUALS\<close> token for the first character alone and moves one character on; the remainder
  is tokenized separately, beginning with a second \<open>EQUALS\<close> token. Where it stands at
  \<open>==>\<close> that no \<open>>\<close> follows, it returns one \<open>THICK_ARROW\<close> token of value \<open>==>\<close>. No token
  of any tokenization has the value \<open>==>>\<close>.
\<close>

theorem thick_arrow_tokens:
  "(charIs lx 0 (CHR ''='') \<and> charIs lx 1 (CHR ''='') \<and> charIs lx 2 (CHR ''>'') \<and> charIs lx 3 (CHR ''>'')
      \<longrightarrow> nextToken lx =
            (Some \<lparr>ttype = EQUALS, tvalue = ''='', tline = lline lx, tcolumn = lcolumn lx,
                   tposition = lposition lx\<rparr>, step lx 1)
          \<and> nextToken (step lx 1) =
            (Some \<lparr>ttype = EQUALS, tvalue = ''='', tline = lline lx, tcolumn = lcolumn lx + 1,
                   tposition = lposition lx + 1\<rparr>, step lx 2))
   \<and> (charIs lx 0 (CHR ''='') \<and> charIs lx 1 (CHR ''='') \<and> charIs lx 2 (CHR ''>'')
        \<and> \<not> charIs lx 3 (CHR ''>'')
      \<longrightarrow> nextToken lx =
            (Some \<lparr>ttype = THICK_ARROW, tvalue = ''==>'', tline = lline lx, tcolumn = lcolumn lx + 1,
                   tposition = lposition lx\<rparr>, step lx 3))
   \<and> (\<forall>t\<in>set (tokenize s). tvalue t \<noteq> ''==>>'')"
proof (intro conjI impI)
  assume h: "charIs lx 0 (CHR ''='') \<and> charIs lx 1 (CHR ''='') \<and> charIs lx 2 (CHR ''>'') \<and> charIs lx 3 (CHR ''>'')"
  then show "nextToken lx =
            (Some \<lparr>ttype = EQUALS, tvalue = ''='', tline = lline lx, tcolumn = lcolumn lx,
                   tposition = lposition lx\<rparr>, step lx 1)"
    by (subst nextToken.simps)
       (simp add: charIs_def isSpace_def scanToken_def Let_def tokenHere_def)
  from h show "nextToken (step lx 1) =
            (Some \<lparr>ttype = EQUALS, tvalue = ''='', tline = lline lx, tcolumn = lcolumn lx + 1,
                   tposition = lposition lx + 1\<rparr>, step lx 2)"
    by (subst nextToken.simps)
       (simp add: charIs_def isSpace_def scanToken_def Let_def tokenHere_def step_def)
next
  assume h: "charIs lx 0 (CHR ''='') \<and> charIs lx 1 (CHR ''='') \<and> charIs lx 2 (CHR ''>'')
        \<and> \<not> charIs lx 3 (CHR ''>'')"
  then show "nextToken lx =
            (Some \<lparr>ttype = THICK_ARROW, tvalue = ''==>'', tline = lline lx, tcolumn = lcolumn lx + 1,
                   tposition = lposition lx\<rparr>, step lx 3)"
    by (subst nextToken.simps)
       (auto simp: charIs_def isSpace_def scanToken_def Let_def arrowToken_def step_def)
next
  show "\<forall>t\<in>set (tokenize s). tvalue t \<noteq> ''==>>''"
    using tokenize_loop_not_4 [of "[]" "\<lparr>input = s, lposition = 0, lline = 1, lcolumn = 1\<rparr>"]
    by (simp add: tokenize_def case_prod_beta)
qed

theorem thick_arrow_tokens_witness:
  "(charIs \<lparr>input = ''A ==>> B'', lposition = 2, lline = 1, lcolumn = 3\<rparr> 0 (CHR ''='')
     \<and> charIs \<lparr>input = ''A ==>> B'', lposition = 2, lline = 1, lcolumn = 3\<rparr> 1 (CHR ''='')
     \<and> charIs \<lparr>input = ''A ==>> B'', lposition = 2, lline = 1, lcolumn = 3\<rparr> 2 (CHR ''>'')
     \<and> charIs \<lparr>input = ''A ==>> B'', lposition = 2, lline = 1, lcolumn = 3\<rparr> 3 (CHR ''>''))
   \<and> fst (nextToken \<lparr>input = ''A ==>> B'', lposition = 2, lline = 1, lcolumn = 3\<rparr>) =
       Some \<lparr>ttype = EQUALS, tvalue = ''='', tline = 1, tcolumn = 3, tposition = 2\<rparr>
   \<and> (charIs \<lparr>input = ''A ==> B'', lposition = 2, lline = 1, lcolumn = 3\<rparr> 0 (CHR ''='')
     \<and> charIs \<lparr>input = ''A ==> B'', lposition = 2, lline = 1, lcolumn = 3\<rparr> 1 (CHR ''='')
     \<and> charIs \<lparr>input = ''A ==> B'', lposition = 2, lline = 1, lcolumn = 3\<rparr> 2 (CHR ''>'')
     \<and> \<not> charIs \<lparr>input = ''A ==> B'', lposition = 2, lline = 1, lcolumn = 3\<rparr> 3 (CHR ''>''))
   \<and> fst (nextToken \<lparr>input = ''A ==> B'', lposition = 2, lline = 1, lcolumn = 3\<rparr>) =
       Some \<lparr>ttype = THICK_ARROW, tvalue = ''==>'', tline = 1, tcolumn = 4, tposition = 2\<rparr>
   \<and> map tvalue (tokenize ''A ==>> B'') = [''A'', ''='', ''='', ''>'', ''>'', ''B'', []]
   \<and> list_all (\<lambda>t. tvalue t \<noteq> ''==>>'') (tokenize ''A ==>> B'')"
proof -
  have h1: "charIs \<lparr>input = ''A ==>> B'', lposition = 2, lline = 1, lcolumn = 3\<rparr> 0 (CHR ''='')
     \<and> charIs \<lparr>input = ''A ==>> B'', lposition = 2, lline = 1, lcolumn = 3\<rparr> 1 (CHR ''='')
     \<and> charIs \<lparr>input = ''A ==>> B'', lposition = 2, lline = 1, lcolumn = 3\<rparr> 2 (CHR ''>'')
     \<and> charIs \<lparr>input = ''A ==>> B'', lposition = 2, lline = 1, lcolumn = 3\<rparr> 3 (CHR ''>'')"
    by (simp add: charIs_def)
  have h2: "charIs \<lparr>input = ''A ==> B'', lposition = 2, lline = 1, lcolumn = 3\<rparr> 0 (CHR ''='')
     \<and> charIs \<lparr>input = ''A ==> B'', lposition = 2, lline = 1, lcolumn = 3\<rparr> 1 (CHR ''='')
     \<and> charIs \<lparr>input = ''A ==> B'', lposition = 2, lline = 1, lcolumn = 3\<rparr> 2 (CHR ''>'')
     \<and> \<not> charIs \<lparr>input = ''A ==> B'', lposition = 2, lline = 1, lcolumn = 3\<rparr> 3 (CHR ''>'')"
    by (simp add: charIs_def)
  have t: "map tvalue (tokenize ''A ==>> B'') = [''A'', ''='', ''='', ''>'', ''>'', ''B'', []]"
    by code_simp
  show ?thesis
    using h1 h2 t
      thick_arrow_tokens [of "\<lparr>input = ''A ==>> B'', lposition = 2, lline = 1, lcolumn = 3\<rparr>" "''A ==>> B''"]
      thick_arrow_tokens [of "\<lparr>input = ''A ==> B'', lposition = 2, lline = 1, lcolumn = 3\<rparr>" "''A ==>> B''"]
    by (simp add: list_all_iff)
qed

subsection \<open>Sequence diagrams\<close>

lemma messageArrowType_cases: "messageArrowType tok = Solid \<or> messageArrowType tok = Dotted"
  by (simp add: messageArrowType_def)

lemma parseMessageLine_arrowType:
  "arrowType (fst (parseMessageLine st)) = messageArrowType (currentToken (advance st))"
  by (simp add: parseMessageLine_def Let_def)

lemma sequence_step_arrowType:
  assumes "\<forall>m\<in>set ms. arrowType m = Solid \<or> arrowType m = Dotted"
  shows "\<forall>m\<in>set (snd (snd (sequence_step st ps ms))). arrowType m = Solid \<or> arrowType m = Dotted"
  using assms messageArrowType_cases [of "currentToken (advance st)"]
  by (simp add: sequence_step_def Let_def case_prod_beta parseMessageLine_arrowType
           split: option.split)

lemma sequence_loop_arrowType:
  "\<forall>m\<in>set ms. arrowType m = Solid \<or> arrowType m = Dotted \<Longrightarrow>
   \<forall>m\<in>set (snd (snd (sequence_loop st ps ms))). arrowType m = Solid \<or> arrowType m = Dotted"
proof (induction st ps ms rule: sequence_loop.induct)
  case (1 st ps ms)
  show ?case
  proof (cases "\<not> isAtEnd st \<and> ttype (currentToken st) \<noteq> EOF")
    case True
    obtain st1 ps1 ms1 where s: "sequence_step st ps ms = (st1, ps1, ms1)"
      by (cases "sequence_step st ps ms") auto
    from sequence_step_arrowType [OF "1.prems", of st ps] s
    have "\<forall>m\<in>set ms1. arrowType m = Solid \<or> arrowType m = Dotted" by simp
    from "1.IH" [OF True s [symmetric] refl this] True s show ?thesis
      by (subst sequence_loop.simps) simp
  next
    case False
    with "1.prems" show ?thesis by (subst sequence_loop.simps) auto
  qed
qed

lemma parseSequenceDiagram_arrowType:
  "fst (parseSequenceDiagram st) = SequenceNode l c ps ms \<Longrightarrow>
     \<forall>m\<in>set ms. arrowType m = Solid \<or> arrowType m = Dotted"
  using sequence_loop_arrowType [of "[]" "advance st" "[]"]
  by (auto simp: parseSequenceDiagram_def Let_def case_prod_beta)

lemma parseDiagram_sequence:
  assumes "parseDiagram n st = Some (SequenceNode l c ps ms, st1)"
  shows "\<forall>m\<in>set ms. arrowType m = Solid \<or> arrowType m = Dotted"
proof -
  let ?st = "skipDirectives st"
  have other:
    "\<And>a s. parseFlowchart n ?st = Some (a, s) \<Longrightarrow> a \<noteq> SequenceNode l c ps ms"
    "\<And>a s. parseXYChart n ?st = Some (a, s) \<Longrightarrow> a \<noteq> SequenceNode l c ps ms"
    "fst (parseClassDiagram ?st) \<noteq> SequenceNode l c ps ms"
    "fst (parseStateDiagram ?st) \<noteq> SequenceNode l c ps ms"
    "fst (parseBlockDiagram ?st) \<noteq> SequenceNode l c ps ms"
    "\<And>ty. fst (parseToEnd ty ?st) \<noteq> SequenceNode l c ps ms"
    by (auto simp: parseFlowchart_def parseXYChart_def parseClassDiagram_def parseStateDiagram_def
          parseBlockDiagram_def parseToEnd_def Let_def case_prod_beta split: option.splits)
  have "fst (parseSequenceDiagram ?st) = SequenceNode l c ps ms"
  proof (rule ccontr)
    assume n: "fst (parseSequenceDiagram ?st) \<noteq> SequenceNode l c ps ms"
    have "\<And>x. Some x = Some (SequenceNode l c ps ms, st1) \<Longrightarrow> fst x = SequenceNode l c ps ms"
      by auto
    with assms n other show False
      unfolding parseDiagram_def Let_def parsePieChart_def parseJourney_def parseGitgraph_def
        parseMindmap_def parseTimeline_def parseGantt_def parseERDiagram_def
      by (auto simp: parseToEnd_def Let_def split: if_splits)
  qed
  then show ?thesis by (rule parseSequenceDiagram_arrowType)
qed

lemma checkVersion_ast: "ast (checkVersion v r) = ast r"
  by (simp add: checkVersion_def split: option.split)

text \<open>
  C10. Every message of the syntax tree of a sequence diagram has \<open>arrowType\<close> \<open>solid\<close> or
  \<open>dotted\<close>. The type of a message is computed from the token after its sender:
  \<open>->\<close>, \<open>->>\<close> and \<open>-->\<close> give \<open>solid\<close>, \<open>-->>\<close> gives \<open>dotted\<close>, and no token gives \<open>thick\<close>.
\<close>

theorem message_arrowType:
  "(validateMermaid n c v = Some r \<longrightarrow> ast r = Some (SequenceNode l col ps ms) \<longrightarrow>
      (\<forall>m\<in>set ms. arrowType m = Solid \<or> arrowType m = Dotted))
   \<and> arrowType (fst (parseMessageLine st)) = messageArrowType (currentToken (advance st))
   \<and> messageArrowType tok \<noteq> Thick
   \<and> (ttype tok = SEQUENCE_ARROW \<or> ttype tok = ARROW \<longrightarrow>
        (tvalue tok = ''->'' \<or> tvalue tok = ''->>'' \<or> tvalue tok = ''-->'' \<longrightarrow> messageArrowType tok = Solid)
        \<and> (tvalue tok = ''-->>'' \<longrightarrow> messageArrowType tok = Dotted))"
proof (intro conjI impI)
  assume a: "validateMermaid n c v = Some r" and b: "ast r = Some (SequenceNode l col ps ms)"
  show "\<forall>m\<in>set ms. arrowType m = Solid \<or> arrowType m = Dotted"
  proof (cases c)
    case (JSString s)
    from a b JSString obtain r0 where p: "parse n (Parser_new s) = Some r0" and r: "r = checkVersion v r0"
      by (auto simp: validateMermaid_def inputError_def split: if_splits option.splits)
    from b r have "ast r0 = Some (SequenceNode l col ps ms)" by (simp add: checkVersion_ast)
    with p obtain st1 where
      "parseDiagram n ((Parser_new s)\<lparr>perrors := [], position := 0, linkCount := 0\<rparr>)
         = Some (SequenceNode l col ps ms, st1)"
      by (auto simp: parse_def split: option.splits)
    then show ?thesis by (rule parseDiagram_sequence)
  qed (use a b in \<open>auto simp: validateMermaid_def inputError_def\<close>)
next
  show "arrowType (fst (parseMessageLine st)) = messageArrowType (currentToken (advance st))"
    by (rule parseMessageLine_arrowType)
next
  show "messageArrowType tok \<noteq> Thick"
    using messageArrowType_cases [of tok] by auto
qed (auto simp: messageArrowType_def)

theorem message_arrowType_witness:
  "validateMermaid 0 (JSString ''sequenceDiagram\<newline>A->>B: hi\<newline>B-->>A: ok\<newline>A->B: x\<newline>A-->B: y'') None =
     Some \<lparr>isValid = True, diagramType = ''sequence'', errors = [],
           ast = Some (SequenceNode 1 16 []
             [\<lparr>mline = 2, mcolumn = 2, mfrom = ''A'', mto = ''B'', mtext = ''hi'', arrowType = Solid\<rparr>,
              \<lparr>mline = 3, mcolumn = 2, mfrom = ''B'', mto = ''A'', mtext = ''ok'', arrowType = Dotted\<rparr>,
              \<lparr>mline = 4, mcolumn = 2, mfrom = ''A'', mto = ''B'', mtext = ''x'', arrowType = Solid\<rparr>,
              \<lparr>mline = 5, mcolumn = 2, mfrom = ''A'', mto = ''B'', mtext = ''y'', arrowType = Solid\<rparr>])\<rparr>
   \<and> list_all (\<lambda>m. arrowType m = Solid \<or> arrowType m = Dotted)
         [\<lparr>mline = 2, mcolumn = 2, mfrom = ''A'', mto = ''B'', mtext = ''hi'', arrowType = Solid\<rparr>,
          \<lparr>mline = 3, mcolumn = 2, mfrom = ''B'', mto = ''A'', mtext = ''ok'', arrowType = Dotted\<rparr>,
          \<lparr>mline = 4, mcolumn = 2, mfrom = ''A'', mto = ''B'', mtext = ''x'', arrowType = Solid\<rparr>,
          \<lparr>mline = 5, mcolumn = 2, mfrom = ''A'', mto = ''B'', mtext = ''y'', arrowType = Solid\<rparr>]
   \<and> messageArrowType \<lparr>ttype = ARROW, tvalue = ''-->>'', tline = 3, tcolumn = 3, tposition = 28\<rparr> = Dotted"
proof -
  have e: "validateMermaid 0 (JSString ''sequenceDiagram\<newline>A->>B: hi\<newline>B-->>A: ok\<newline>A->B: x\<newline>A-->B: y'') None =
     Some \<lparr>isValid = True, diagramType = ''sequence'', errors = [],
           ast = Some (SequenceNode 1 16 []
             [\<lparr>mline = 2, mcolumn = 2, mfrom = ''A'', mto = ''B'', mtext = ''hi'', arrowType = Solid\<rparr>,
              \<lparr>mline = 3, mcolumn = 2, mfrom = ''B'', mto = ''A'', mtext = ''ok'', arrowType = Dotted\<rparr>,
              \<lparr>mline = 4, mcolumn = 2, mfrom = ''A'', mto = ''B'', mtext = ''x'', arrowType = Solid\<rparr>,
              \<lparr>mline = 5, mcolumn = 2, mfrom = ''A'', mto = ''B'', mtext = ''y'', arrowType = Solid\<rparr>])\<rparr>"
    by code_simp
  show ?thesis
    using e
      message_arrowType [where n = 0 and v = None
        and c = "JSString ''sequenceDiagram\<newline>A->>B: hi\<newline>B-->>A: ok\<newline>A->B: x\<newline>A-->B: y''"
        and tok = "\<lparr>ttype = ARROW, tvalue = ''-->>'', tline = 3, tcolumn = 3, tposition = 28\<rparr>"]
    by simp
qed

subsection \<open>Flowcharts\<close>

text \<open>What moving the cursor and skipping leave alone.\<close>

lemma advance_fields [simp]:
  "perrors (advance st) = perrors st" "linkCount (advance st) = linkCount st"
  "tokens (advance st) = tokens st"
  by (simp_all add: advance_def)

lemma addError_fields [simp]:
  "linkCount (addError t m c s st) = linkCount st" "tokens (addError t m c s st) = tokens st"
  "position (addError t m c s st) = position st"
  "perrors (addError t m c s st) =
     perrors st @ [\<lparr>line = tline t, column = tcolumn t, message = m, code = c, suggestion = s\<rparr>]"
  by (simp_all add: addError_def)

lemma skipToSemicolon_fields [simp]:
  "perrors (skipToSemicolon st) = perrors st \<and> linkCount (skipToSemicolon st) = linkCount st"
proof (induction st rule: skipToSemicolon.induct)
  case (1 st)
  then show ?case by (subst (1 2) skipToSemicolon.simps) simp
qed

lemma skipSemicolon_fields [simp]:
  "perrors (skipSemicolon st) = perrors st" "linkCount (skipSemicolon st) = linkCount st"
  by (simp_all add: skipSemicolon_def)

lemma recoverTo_linkCount [simp]: "linkCount (recoverTo c st) = linkCount st"
proof (induction c st rule: recoverTo.induct)
  case (1 c st)
  then show ?case by (subst recoverTo.simps) simp
qed

lemma collectIdentifiersAsLabel_loop_linkCount [simp]:
  "linkCount (snd (collectIdentifiersAsLabel_loop b st ps)) = linkCount st"
proof (induction b st ps rule: collectIdentifiersAsLabel_loop.induct)
  case (1 b st ps)
  then show ?case by (subst collectIdentifiersAsLabel_loop.simps) simp
qed

lemma labelParts_linkCount:
  "labelParts n b st ps = Some (r, st1) \<Longrightarrow> linkCount st1 = linkCount st"
  by (induction n arbitrary: st ps) (auto split: if_splits)

lemma expectClose_linkCount [simp]: "linkCount (expectClose c m st) = linkCount st"
  by (simp add: expectClose_def Let_def)

lemma shapeLabel_linkCount:
  "shapeLabel n st = Some (r, st1) \<Longrightarrow> linkCount st1 = linkCount st"
  by (auto simp: shapeLabel_def split: if_splits option.splits dest: labelParts_linkCount)

lemma parseNode_linkCount:
  "parseNode n st = Some (e, st1) \<Longrightarrow> linkCount st1 = linkCount st"
  by (auto simp: parseNode_def Let_def collectIdentifiersAsLabel_def case_prod_beta
           split: if_splits option.splits dest: shapeLabel_linkCount)

lemma arrowLabel_linkCount:
  "arrowLabel n st = Some (r, st1) \<Longrightarrow> linkCount st1 = linkCount st"
  by (auto simp: arrowLabel_def Let_def split: if_splits option.splits dest: labelParts_linkCount)

lemma parseArrow_linkCount:
  "parseArrow n st = Some (e, st1) \<Longrightarrow> linkCount st1 = linkCount st + 1"
  by (auto simp: parseArrow_def Let_def split: if_splits option.splits
           dest!: arrowLabel_linkCount parseNode_linkCount)

lemma not_end_linkStyle: "tvalue t = ''linkStyle'' \<Longrightarrow> \<not> isEndKeyword t"
  by (simp add: isEndKeyword_def toLowerCase_def)


definition linkStyleState :: Parser where
  \<comment> \<open>the parser of the input of the spec, at its \<open>linkStyle\<close> token, after one arrow\<close>
  "linkStyleState =
     \<lparr>tokens = tokenize ''flowchart TD\<newline>A[Start] --> B[End]\<newline>linkStyle 5 stroke:#f00'',
      position = 11, perrors = [], linkCount = 1\<rparr>"

definition arrowState :: Parser where
  \<comment> \<open>the same parser at its arrow\<close>
  "arrowState =
     \<lparr>tokens = tokenize ''flowchart TD\<newline>A[Start] --> B[End]\<newline>linkStyle 5 stroke:#f00'',
      position = 6, perrors = [], linkCount = 0\<rparr>"


definition adjacentNodePairs :: "FlowchartElement list \<Rightarrow> (FlowchartElement \<times> FlowchartElement) list" where
  \<comment> \<open>the spec's words: two consecutive elements of the list, both nodes, on the same line\<close>
  "adjacentNodePairs nodes =
     filter (\<lambda>(a, b). isNode a \<and> isNode b \<and> elLine a = elLine b) (zip nodes (tl nodes))"

definition missingArrow :: "FlowchartElement \<times> FlowchartElement \<Rightarrow> ValidationError" where
  \<comment> \<open>the diagnostic for a pair, at the position of its second node\<close>
  "missingArrow p =
     \<lparr>line = elLine (snd p), column = elColumn (snd p), message = missingArrowMessage (fst p) (snd p),
      code = ''MISSING_ARROW'',
      suggestion = Some ''Add an arrow (-->) between the nodes or place them on separate lines''\<rparr>"

lemma adjacentNodePairs_Cons:
  "adjacentNodePairs (a # b # rest) =
     (if isNode a \<and> isNode b \<and> elLine a = elLine b then [(a, b)] else []) @ adjacentNodePairs (b # rest)"
  by (simp add: adjacentNodePairs_def)

lemma validateFlowchartConnections_perrors:
  "perrors (validateFlowchartConnections nodes st) = perrors st @ map missingArrow (adjacentNodePairs nodes)"
proof (induction nodes st rule: validateFlowchartConnections.induct)
  case (1 a b rest st)
  then show ?case
    by (simp add: adjacentNodePairs_Cons missingArrowError_def addError_def missingArrow_def
             del: validateFlowchartConnections.simps(2,3))
qed (simp_all add: adjacentNodePairs_def)

lemma parseFlowchart_connections:
  "parseFlowchart n st = Some (FlowchartNode l c d nodes, st1) \<Longrightarrow>
     \<exists>es. perrors st1 = es @ map missingArrow (adjacentNodePairs nodes)"
  by (auto simp: parseFlowchart_def Let_def validateFlowchartConnections_perrors split: option.splits)

lemma parseSubgraph_connections:
  "parseSubgraph n st = Some (SubgraphEl l c i children, st1) \<Longrightarrow>
     \<exists>es. perrors st1 = es @ map missingArrow (adjacentNodePairs children)"
  by (cases n) (auto simp: Let_def validateFlowchartConnections_perrors split: option.splits)

text \<open>
  C7. \<open>validateFlowchartConnections\<close> appends one diagnostic of code \<open>MISSING_ARROW\<close> for
  every two consecutive elements of its list that are both nodes and on the same line, in
  the order of the list, at the position of the second node, and nothing else.
  \<open>parseFlowchart\<close> applies it to the element list it has built and \<open>parseSubgraph\<close> to
  the child list of the subgraph, last of all. The input \<open>flowchart TD\<close>, \<open>A B\<close> is
  invalid with exactly one diagnostic, of code \<open>MISSING_ARROW\<close>: \<open>TD\<close> is the direction,
  \<open>A\<close> and \<open>B\<close> are the two nodes.
\<close>

theorem missing_arrow:
  "perrors (validateFlowchartConnections nodes st) = perrors st @ map missingArrow (adjacentNodePairs nodes)
   \<and> (\<forall>p\<in>set (adjacentNodePairs nodes). code (missingArrow p) = ''MISSING_ARROW'')
   \<and> (parseFlowchart n st = Some (FlowchartNode l c d nodes, st1) \<longrightarrow>
        (\<exists>es. perrors st1 = es @ map missingArrow (adjacentNodePairs nodes)))
   \<and> (parseSubgraph n st = Some (SubgraphEl l c i nodes, st1) \<longrightarrow>
        (\<exists>es. perrors st1 = es @ map missingArrow (adjacentNodePairs nodes)))
   \<and> validateMermaid 20 (JSString ''flowchart TD\<newline>A B'') None =
       Some \<lparr>isValid = False, diagramType = ''flowchart'',
             errors = [missingArrow (NodeEl 2 2 ''A'' None Rect, NodeEl 2 4 ''B'' None Rect)],
             ast = Some (FlowchartNode 1 10 (Some ''TD'')
                           [NodeEl 2 2 ''A'' None Rect, NodeEl 2 4 ''B'' None Rect])\<rparr>"
proof (intro conjI impI)
  show "validateMermaid 20 (JSString ''flowchart TD\<newline>A B'') None =
       Some \<lparr>isValid = False, diagramType = ''flowchart'',
             errors = [missingArrow (NodeEl 2 2 ''A'' None Rect, NodeEl 2 4 ''B'' None Rect)],
             ast = Some (FlowchartNode 1 10 (Some ''TD'')
                           [NodeEl 2 2 ''A'' None Rect, NodeEl 2 4 ''B'' None Rect])\<rparr>"
    by code_simp
qed (simp_all add: validateFlowchartConnections_perrors parseFlowchart_connections
       parseSubgraph_connections missingArrow_def)

definition subgraphState :: Parser where
  \<comment> \<open>a parser at a \<open>subgraph\<close> token\<close>
  "subgraphState =
     \<lparr>tokens = tokenize ''flowchart TD\<newline>subgraph S\<newline>A B\<newline>end'',
      position = 2, perrors = [], linkCount = 0\<rparr>"

theorem missing_arrow_witness:
  "parseFlowchart 20 (Parser_new ''flowchart TD\<newline>A B'') =
     Some (FlowchartNode 1 10 (Some ''TD'') [NodeEl 2 2 ''A'' None Rect, NodeEl 2 4 ''B'' None Rect],
           snd (the (parseFlowchart 20 (Parser_new ''flowchart TD\<newline>A B''))))
   \<and> parseSubgraph 20 subgraphState =
     Some (SubgraphEl 2 9 ''S'' [NodeEl 3 2 ''A'' None Rect, NodeEl 3 4 ''B'' None Rect],
           snd (the (parseSubgraph 20 subgraphState)))
   \<and> adjacentNodePairs [NodeEl 3 2 ''A'' None Rect, NodeEl 3 4 ''B'' None Rect]
       = [(NodeEl 3 2 ''A'' None Rect, NodeEl 3 4 ''B'' None Rect)]
   \<and> code (missingArrow (NodeEl 3 2 ''A'' None Rect, NodeEl 3 4 ''B'' None Rect)) = ''MISSING_ARROW''
   \<and> (\<exists>es. perrors (snd (the (parseFlowchart 20 (Parser_new ''flowchart TD\<newline>A B'')))) =
          es @ [missingArrow (NodeEl 2 2 ''A'' None Rect, NodeEl 2 4 ''B'' None Rect)])
   \<and> (\<exists>es. perrors (snd (the (parseSubgraph 20 subgraphState))) =
          es @ [missingArrow (NodeEl 3 2 ''A'' None Rect, NodeEl 3 4 ''B'' None Rect)])"
proof -
  have h1: "parseFlowchart 20 (Parser_new ''flowchart TD\<newline>A B'') =
     Some (FlowchartNode 1 10 (Some ''TD'') [NodeEl 2 2 ''A'' None Rect, NodeEl 2 4 ''B'' None Rect],
           snd (the (parseFlowchart 20 (Parser_new ''flowchart TD\<newline>A B''))))"
    by code_simp
  have h2: "parseSubgraph 20 subgraphState =
     Some (SubgraphEl 2 9 ''S'' [NodeEl 3 2 ''A'' None Rect, NodeEl 3 4 ''B'' None Rect],
           snd (the (parseSubgraph 20 subgraphState)))"
    by code_simp
  have h3: "adjacentNodePairs [NodeEl 3 2 ''A'' None Rect, NodeEl 3 4 ''B'' None Rect]
       = [(NodeEl 3 2 ''A'' None Rect, NodeEl 3 4 ''B'' None Rect)]"
       "adjacentNodePairs [NodeEl 2 2 ''A'' None Rect, NodeEl 2 4 ''B'' None Rect]
       = [(NodeEl 2 2 ''A'' None Rect, NodeEl 2 4 ''B'' None Rect)]"
    by (simp_all add: adjacentNodePairs_def)
  show ?thesis
    using h1 h2 h3
      missing_arrow [where n = 20 and st = "Parser_new ''flowchart TD\<newline>A B''"
        and nodes = "[NodeEl 2 2 ''A'' None Rect, NodeEl 2 4 ''B'' None Rect]"
        and l = 1 and c = 10 and d = "Some ''TD''"
        and ?st1.0 = "snd (the (parseFlowchart 20 (Parser_new ''flowchart TD\<newline>A B'')))"]
      missing_arrow [where n = 20 and st = subgraphState
        and nodes = "[NodeEl 3 2 ''A'' None Rect, NodeEl 3 4 ''B'' None Rect]"
        and l = 2 and c = 9 and i = "''S''"
        and ?st1.0 = "snd (the (parseSubgraph 20 subgraphState))"]
    by simp
qed

subsection \<open>XY charts: a list that is never closed\<close>

definition noCloseAhead :: "Parser \<Rightarrow> bool" where
  \<comment> \<open>no \<open>]\<close> token at the cursor or after it\<close>
  "noCloseAhead st =
     (list_all (\<lambda>t. ttype t \<noteq> BRACKET_CLOSE) (drop (position st) (tokens st))
      \<and> ttype (last (tokens st)) \<noteq> BRACKET_CLOSE)"

lemma set_drop_position:
  "i < length xs \<Longrightarrow> set (drop i xs) = insert (xs ! i) (set (drop (Suc i) xs))"
  by (metis Cons_nth_drop_Suc list.simps(15))

lemma noCloseAhead_current: "noCloseAhead st \<Longrightarrow> ttype (currentToken st) \<noteq> BRACKET_CLOSE"
  by (auto simp: noCloseAhead_def currentToken_def list_all_iff set_drop_position)

lemma noCloseAhead_advance: "noCloseAhead st \<Longrightarrow> noCloseAhead (advance st)"
  by (auto simp: noCloseAhead_def advance_def list_all_iff set_drop_position)

lemma noCloseAhead_addError: "noCloseAhead st \<Longrightarrow> noCloseAhead (addError t m c s st)"
  by (simp add: noCloseAhead_def addError_def)

lemma xAxis_loop_diverges: "noCloseAhead st \<Longrightarrow> xAxis_loop n st xs = None"
proof (induction n arbitrary: st xs)
  case 0
  show ?case by simp
next
  case (Suc n)
  from Suc.prems show ?case
    by (simp add: Let_def noCloseAhead_current Suc.IH noCloseAhead_advance noCloseAhead_addError)
qed

lemma values_loop_diverges: "noCloseAhead st \<Longrightarrow> values_loop n st vs = None"
proof (induction n arbitrary: st vs)
  case 0
  show ?case by simp
next
  case (Suc n)
  from Suc.prems show ?case
    by (simp add: Let_def noCloseAhead_current Suc.IH noCloseAhead_advance)
qed


lemma parseXYChart_unclosed_xAxis:
  assumes "\<not> isAtEnd (advance st)" and "ttype (currentToken (advance st)) \<noteq> DIRECTIVE"
    and "tvalue (currentToken (advance st)) = ''x-axis''"
    and "ttype (currentToken (advance (advance st))) = BRACKET_OPEN"
    and "noCloseAhead (advance (advance (advance st)))"
  shows "parseXYChart n st = None"
proof -
  have "xychart_loop n (advance st) ch = None" for ch
  proof (cases n)
    case 0
    then show ?thesis by simp
  next
    case (Suc m)
    from assms have "xychart_step m (advance st) ch = None"
      by (simp add: xychart_step_def Let_def xAxis_loop_diverges)
    with assms(1) Suc show ?thesis by (simp add: isAtEnd_def)
  qed
  then show ?thesis by (simp add: parseXYChart_def Let_def)
qed

lemma parseXYChart_unclosed_series:
  assumes "\<not> isAtEnd (advance st)" and "ttype (currentToken (advance st)) \<noteq> DIRECTIVE"
    and "tvalue (currentToken (advance st)) = ''bar'' \<or> tvalue (currentToken (advance st)) = ''line''"
    and "ttype (currentToken (advance (advance st))) = BRACKET_OPEN"
    and "noCloseAhead (advance (advance (advance st)))"
  shows "parseXYChart n st = None"
proof -
  have "xychart_loop n (advance st) ch = None" for ch
  proof (cases n)
    case 0
    then show ?thesis by simp
  next
    case (Suc m)
    from assms have "xychart_step m (advance st) ch = None"
      by (auto simp: xychart_step_def Let_def values_loop_diverges)
    with assms(1) Suc show ?thesis by (simp add: isAtEnd_def)
  qed
  then show ?thesis by (simp add: parseXYChart_def Let_def)
qed

lemma parseDiagram_xychart:
  "ttype (currentToken (skipDirectives st)) = XYCHART_BETA \<Longrightarrow>
     parseDiagram n st = parseXYChart n (skipDirectives st)"
  by (simp add: parseDiagram_def Let_def)

definition freshParser :: "string \<Rightarrow> Parser" where
  \<comment> \<open>the parser of an input at the start of \<open>parse\<close>\<close>
  "freshParser s = (Parser_new s)\<lparr>perrors := [], position := 0, linkCount := 0\<rparr>"

lemma validateMermaid_None:
  "trim s \<noteq> [] \<Longrightarrow> parseDiagram n (freshParser s) = None \<Longrightarrow> validateMermaid n (JSString s) v = None"
  by (auto simp: validateMermaid_def parse_def freshParser_def trim_def)

text \<open>
  C2. On an \<open>xychart-beta\<close> diagram whose \<open>x-axis [\<close> or \<open>bar [\<close> list is not closed before
  the end of the input, the loop \<open>while (this.currentToken().type !== BRACKET_CLOSE)\<close>
  never ends: past the last token \<open>advance\<close> no longer moves the cursor and
  \<open>currentToken\<close> stays the \<open>EOF\<close> token. In the model \<open>validateMermaid\<close> returns nothing
  on these inputs, whatever the fuel.
\<close>

theorem unclosed_list_never_returns:
  "validateMermaid n (JSString ''xychart-beta\<newline>x-axis ['') v = None
   \<and> validateMermaid n (JSString ''xychart-beta\<newline>bar [1, 2'') v = None"
proof
  let ?s = "''xychart-beta\<newline>x-axis [''"
  let ?st = "skipDirectives (freshParser ?s)"
  have t: "trim ?s \<noteq> []" by code_simp
  have h0: "ttype (currentToken ?st) = XYCHART_BETA" by code_simp
  have h1: "\<not> isAtEnd (advance ?st)" by code_simp
  have h2: "ttype (currentToken (advance ?st)) \<noteq> DIRECTIVE" by code_simp
  have h3: "tvalue (currentToken (advance ?st)) = ''x-axis''" by code_simp
  have h4: "ttype (currentToken (advance (advance ?st))) = BRACKET_OPEN" by code_simp
  have h5: "noCloseAhead (advance (advance (advance ?st)))" by code_simp
  from parseXYChart_unclosed_xAxis [OF h1 h2 h3 h4 h5] parseDiagram_xychart [OF h0]
  have "parseDiagram n (freshParser ?s) = None" by simp
  with t show "validateMermaid n (JSString ?s) v = None" by (rule validateMermaid_None)
next
  let ?s = "''xychart-beta\<newline>bar [1, 2''"
  let ?st = "skipDirectives (freshParser ?s)"
  have t: "trim ?s \<noteq> []" by code_simp
  have h0: "ttype (currentToken ?st) = XYCHART_BETA" by code_simp
  have h1: "\<not> isAtEnd (advance ?st)" by code_simp
  have h2: "ttype (currentToken (advance ?st)) \<noteq> DIRECTIVE" by code_simp
  have h3: "tvalue (currentToken (advance ?st)) = ''bar'' \<or> tvalue (currentToken (advance ?st)) = ''line''"
    by code_simp
  have h4: "ttype (currentToken (advance (advance ?st))) = BRACKET_OPEN" by code_simp
  have h5: "noCloseAhead (advance (advance (advance ?st)))" by code_simp
  from parseXYChart_unclosed_series [OF h1 h2 h3 h4 h5] parseDiagram_xychart [OF h0]
  have "parseDiagram n (freshParser ?s) = None" by simp
  with t show "validateMermaid n (JSString ?s) v = None" by (rule validateMermaid_None)
qed

subsection \<open>Styling statements outside flowcharts\<close>

lemma frame_sequence_loop: "frame st (fst (sequence_loop st ps ms))"
proof (induction st ps ms rule: sequence_loop.induct)
  case (1 st ps ms)
  show ?case
  proof (cases "\<not> isAtEnd st \<and> ttype (currentToken st) \<noteq> EOF")
    case True
    obtain st1 ps1 ms1 where s: "sequence_step st ps ms = (st1, ps1, ms1)"
      by (cases "sequence_step st ps ms") auto
    from progress_sequence_step [of st ps ms] True s have "frame st st1"
      by (simp add: progress_def)
    from frame_trans [OF this "1.IH" [OF True s [symmetric] refl]] True s show ?thesis
      by (subst sequence_loop.simps) simp
  next
    case False
    then show ?thesis by (subst sequence_loop.simps) (auto simp: frame_refl)
  qed
qed

lemma frame_class_loop: "frame st (class_loop st)"
proof (induction st rule: class_loop.induct)
  case (1 st)
  show ?case
  proof (cases "\<not> isAtEnd st \<and> ttype (currentToken st) \<noteq> EOF")
    case True
    from progress_class_step [of st] True have "frame st (class_step st)"
      by (simp add: progress_def)
    from frame_trans [OF this "1.IH" [OF True]] True show ?thesis
      by (subst class_loop.simps) simp
  next
    case False
    then show ?thesis by (subst class_loop.simps) (auto simp: frame_refl)
  qed
qed

lemma frame_state_loop: "frame st (state_loop st)"
proof (induction st rule: state_loop.induct)
  case (1 st)
  show ?case
  proof (cases "\<not> isAtEnd st \<and> ttype (currentToken st) \<noteq> EOF")
    case True
    from progress_state_step [of st] True have "frame st (state_step st)"
      by (simp add: progress_def)
    from frame_trans [OF this "1.IH" [OF True]] True show ?thesis
      by (subst state_loop.simps) simp
  next
    case False
    then show ?thesis by (subst state_loop.simps) (auto simp: frame_refl)
  qed
qed

lemma frame_perrors: "frame a b \<Longrightarrow> set (perrors a) \<subseteq> set (perrors b)"
  by (auto simp: frame_def)

lemma skipUntilSemicolon_perrors [simp]: "perrors (skipUntilSemicolon st) = perrors st"
  by (simp add: skipUntilSemicolon_def)

lemma skipToEnd_perrors [simp]: "perrors (skipToEnd st) = perrors st"
proof (induction st rule: skipToEnd.induct)
  case (1 st)
  then show ?case by (subst skipToEnd.simps) simp
qed

definition unsupportedStyling :: "Token \<Rightarrow> string \<Rightarrow> string \<Rightarrow> ValidationError" where
  \<comment> \<open>the diagnostic for the token of a styling statement in the diagrams named \<open>kind\<close>\<close>
  "unsupportedStyling token kind sugg =
     \<lparr>line = tline token, column = tcolumn token,
      message = tvalue token @ '' directive is not supported in '' @ kind,
      code = ''UNSUPPORTED_STYLING_DIRECTIVE'', suggestion = Some sugg\<rparr>"




definition stylingState :: Parser where
  \<comment> \<open>a parser at a \<open>style\<close> statement\<close>
  "stylingState =
     \<lparr>tokens = tokenize ''sequenceDiagram\<newline>style A fill:#f00;\<newline>A->>B: hi'',
      position = 1, perrors = [], linkCount = 0\<rparr>"


subsection \<open>Where the diagnostics point\<close>

definition atToken :: "Token list \<Rightarrow> nat \<Rightarrow> nat \<Rightarrow> bool" where
  \<comment> \<open>some token of the list has this line and this column\<close>
  "atToken T l c = list_ex (\<lambda>t. tline t = l \<and> tcolumn t = c) T"

definition okDiagnostic :: "Token list \<Rightarrow> ValidationError \<Rightarrow> bool" where
  \<comment> \<open>at a token, or \<open>MISSING_DATA\<close> at its fixed place\<close>
  "okDiagnostic T e =
     (atToken T (line e) (column e) \<or> (code e = ''MISSING_DATA'' \<and> line e = 1 \<and> column e = 1))"

definition wellPlaced :: "Token list \<Rightarrow> Parser \<Rightarrow> bool" where
  "wellPlaced T st = (tokens st = T \<and> T \<noteq> [] \<and> list_all (okDiagnostic T) (perrors st))"

definition nodeAt :: "Token list \<Rightarrow> FlowchartElement \<Rightarrow> bool" where
  \<comment> \<open>a node element carries the line and column of a token\<close>
  "nodeAt T e = (isNode e \<longrightarrow> atToken T (elLine e) (elColumn e))"

named_theorems wp

lemma atToken_member: "t \<in> set T \<Longrightarrow> atToken T (tline t) (tcolumn t)"
  by (auto simp: atToken_def list_ex_iff)

lemma wp_current [wp]: "wellPlaced T st \<Longrightarrow> currentToken st \<in> set T"
  by (auto simp: wellPlaced_def currentToken_def)

lemma wp_advance [wp]: "wellPlaced T st \<Longrightarrow> wellPlaced T (advance st)"
  by (simp add: wellPlaced_def advance_def)

lemma wp_linkCount [wp]: "wellPlaced T st \<Longrightarrow> wellPlaced T (st\<lparr>linkCount := k\<rparr>)"
  by (simp add: wellPlaced_def)

lemma wp_addError_at:
  "wellPlaced T st \<Longrightarrow> atToken T (tline t) (tcolumn t) \<Longrightarrow> wellPlaced T (addError t m c s st)"
  by (simp add: wellPlaced_def addError_def okDiagnostic_def)

lemma wp_addError [wp]: "wellPlaced T st \<Longrightarrow> t \<in> set T \<Longrightarrow> wellPlaced T (addError t m c s st)"
  by (simp add: wp_addError_at atToken_member)

lemma wp_skipToSemicolon [wp]: "wellPlaced T st \<Longrightarrow> wellPlaced T (skipToSemicolon st)"
proof (induction st rule: skipToSemicolon.induct)
  case (1 st)
  then show ?case by (subst skipToSemicolon.simps) (simp add: wp)
qed

lemma wp_skipToEnd [wp]: "wellPlaced T st \<Longrightarrow> wellPlaced T (skipToEnd st)"
proof (induction st rule: skipToEnd.induct)
  case (1 st)
  then show ?case by (subst skipToEnd.simps) (simp add: wp)
qed

lemma wp_recoverTo [wp]: "wellPlaced T st \<Longrightarrow> wellPlaced T (recoverTo c st)"
proof (induction c st rule: recoverTo.induct)
  case (1 c st)
  then show ?case by (subst recoverTo.simps) (simp add: wp)
qed

lemma wp_skipDirectives [wp]: "wellPlaced T st \<Longrightarrow> wellPlaced T (skipDirectives st)"
proof (induction st rule: skipDirectives.induct)
  case (1 st)
  then show ?case by (subst skipDirectives.simps) (simp add: wp)
qed

lemma wp_skipSemicolon [wp]: "wellPlaced T st \<Longrightarrow> wellPlaced T (skipSemicolon st)"
  by (simp add: skipSemicolon_def wp)

lemma wp_skipUntilSemicolon [wp]: "wellPlaced T st \<Longrightarrow> wellPlaced T (skipUntilSemicolon st)"
  by (simp add: skipUntilSemicolon_def wp)

lemma wp_collect [wp]:
  "wellPlaced T st \<Longrightarrow> wellPlaced T (snd (collectIdentifiersAsLabel_loop b st ps))"
proof (induction b st ps rule: collectIdentifiersAsLabel_loop.induct)
  case (1 b st ps)
  then show ?case by (subst collectIdentifiersAsLabel_loop.simps) (simp add: wp)
qed

lemma wp_message_loop [wp]: "wellPlaced T st \<Longrightarrow> wellPlaced T (snd (message_loop l st ps))"
proof (induction l st ps rule: message_loop.induct)
  case (1 l st ps)
  then show ?case by (subst message_loop.simps) (auto simp: wp)
qed

lemma wp_statements [wp]:
  assumes "wellPlaced T st"
  shows "wellPlaced T (parseClassDef st)" "wellPlaced T (parseClassAssignment st)"
    "wellPlaced T (parseLinkStyle st)" "wellPlaced T (parseStyle st)"
    "wellPlaced T (parseClickStatement st)" "wellPlaced T (parseNoteStatement st)"
    "wellPlaced T (parseDirectionStatement st)" "wellPlaced T (skipTitleDirective st)"
  using assms
  by (simp_all add: parseClassDef_def parseClassAssignment_def parseLinkStyle_def parseStyle_def
        parseClickStatement_def parseNoteStatement_def parseDirectionStatement_def
        skipTitleDirective_def Let_def wp split: option.split)

lemma wp_expectClose [wp]: "wellPlaced T st \<Longrightarrow> wellPlaced T (expectClose c m st)"
  by (simp add: expectClose_def Let_def wp)

lemma wp_parseParticipant [wp]: "wellPlaced T st \<Longrightarrow> wellPlaced T (snd (parseParticipant st))"
  by (simp add: parseParticipant_def Let_def wp)

lemma wp_parseMessageLine [wp]: "wellPlaced T st \<Longrightarrow> wellPlaced T (snd (parseMessageLine st))"
  by (simp add: parseMessageLine_def Let_def wp)

lemma wp_sequence_step [wp]: "wellPlaced T st \<Longrightarrow> wellPlaced T (fst (sequence_step st ps ms))"
  by (simp add: sequence_step_def Let_def case_prod_beta wp split: option.split)

lemma wp_class_step [wp]: "wellPlaced T st \<Longrightarrow> wellPlaced T (class_step st)"
  by (simp add: class_step_def Let_def wp)

lemma wp_state_step [wp]: "wellPlaced T st \<Longrightarrow> wellPlaced T (state_step st)"
  by (simp add: state_step_def Let_def wp)

lemma wp_block_step [wp]: "wellPlaced T st \<Longrightarrow> wellPlaced T (fst (block_step st cs bs))"
  by (simp add: block_step_def Let_def wp)

lemma wp_sequence_loop [wp]: "wellPlaced T st \<Longrightarrow> wellPlaced T (fst (sequence_loop st ps ms))"
proof (induction st ps ms rule: sequence_loop.induct)
  case (1 st ps ms)
  show ?case
  proof (cases "\<not> isAtEnd st \<and> ttype (currentToken st) \<noteq> EOF")
    case True
    obtain st1 ps1 ms1 where s: "sequence_step st ps ms = (st1, ps1, ms1)"
      by (cases "sequence_step st ps ms") auto
    from wp_sequence_step [OF "1.prems", of ps ms] s have "wellPlaced T st1" by simp
    from "1.IH" [OF True s [symmetric] refl this] True s show ?thesis
      by (subst sequence_loop.simps) simp
  next
    case False
    with "1.prems" show ?thesis by (subst sequence_loop.simps) auto
  qed
qed

lemma wp_block_loop [wp]: "wellPlaced T st \<Longrightarrow> wellPlaced T (fst (block_loop st cs bs))"
proof (induction st cs bs rule: block_loop.induct)
  case (1 st cs bs)
  show ?case
  proof (cases "\<not> isAtEnd st \<and> ttype (currentToken st) \<noteq> EOF")
    case True
    obtain st1 cs1 bs1 where s: "block_step st cs bs = (st1, cs1, bs1)"
      by (cases "block_step st cs bs") auto
    from wp_block_step [OF "1.prems", of cs bs] s have "wellPlaced T st1" by simp
    from "1.IH" [OF True s [symmetric] refl this] True s show ?thesis
      by (subst block_loop.simps) simp
  next
    case False
    with "1.prems" show ?thesis by (subst block_loop.simps) auto
  qed
qed

lemma wp_class_loop [wp]: "wellPlaced T st \<Longrightarrow> wellPlaced T (class_loop st)"
proof (induction st rule: class_loop.induct)
  case (1 st)
  then show ?case by (subst class_loop.simps) (simp add: wp)
qed

lemma wp_state_loop [wp]: "wellPlaced T st \<Longrightarrow> wellPlaced T (state_loop st)"
proof (induction st rule: state_loop.induct)
  case (1 st)
  then show ?case by (subst state_loop.simps) (simp add: wp)
qed

lemma wp_total_grammars [wp]:
  assumes "wellPlaced T st"
  shows "wellPlaced T (snd (parseSequenceDiagram st))" "wellPlaced T (snd (parseClassDiagram st))"
    "wellPlaced T (snd (parseStateDiagram st))" "wellPlaced T (snd (parseBlockDiagram st))"
    "wellPlaced T (snd (parseToEnd ty st))"
  using assms
  by (simp_all add: parseSequenceDiagram_def parseClassDiagram_def parseStateDiagram_def
        parseBlockDiagram_def parseToEnd_def Let_def case_prod_beta wp)


lemma wp_labelParts:
  "labelParts n b st ps = Some (r, st1) \<Longrightarrow> wellPlaced T st \<Longrightarrow> wellPlaced T st1"
  by (induction n arbitrary: st ps) (auto simp: wp split: if_splits)

lemma wp_shapeLabel:
  "shapeLabel n st = Some (r, st1) \<Longrightarrow> wellPlaced T st \<Longrightarrow> wellPlaced T st1"
  by (auto simp: shapeLabel_def wp split: if_splits option.splits dest: wp_labelParts)

lemma wp_arrowLabel:
  "arrowLabel n st = Some (r, st1) \<Longrightarrow> wellPlaced T st \<Longrightarrow> wellPlaced T st1"
  by (auto simp: arrowLabel_def Let_def wp split: if_splits option.splits
           dest: wp_labelParts [OF _ wp_advance])

lemma nodeAt_NodeEl: "t \<in> set T \<Longrightarrow> nodeAt T (NodeEl (tline t) (tcolumn t) i lab sh)"
  by (simp add: nodeAt_def atToken_member)

lemma nodeAt_other [simp]:
  "nodeAt T (ArrowEl l c lab to)" "nodeAt T (SubgraphEl l c i ch)" "nodeAt T (ProcessedEl l c)"
  by (simp_all add: nodeAt_def)

lemma wp_parseNode:
  assumes "parseNode n st = Some (e, st1)" and "wellPlaced T st"
  shows "wellPlaced T st1 \<and> nodeAt T e"
  using assms
  by (auto simp: parseNode_def Let_def collectIdentifiersAsLabel_def case_prod_beta wp nodeAt_NodeEl
           split: if_splits option.splits dest: wp_shapeLabel [OF _ wp_advance [OF wp_advance]])

lemma wp_parseArrow:
  assumes "parseArrow n st = Some (e, st1)" and "wellPlaced T st"
  shows "wellPlaced T st1 \<and> nodeAt T e"
proof -
  let ?st2 = "(advance st)\<lparr>linkCount := linkCount (advance st) + 1\<rparr>"
  from assms(2) have w2: "wellPlaced T ?st2" by (simp add: wp)
  from assms(1) obtain lab st3 where l: "arrowLabel n ?st2 = Some (lab, st3)"
    by (auto simp: parseArrow_def Let_def split: option.splits)
  from wp_arrowLabel [OF l w2] have w3: "wellPlaced T st3" .
  show ?thesis
  proof (cases "isAtEnd st3 \<or> ttype (currentToken st3) = EOF")
    case True
    with assms l w3 show ?thesis by (auto simp: parseArrow_def Let_def wp)
  next
    case False
    with assms(1) l obtain toNode where p: "parseNode n st3 = Some (toNode, st1)"
      and e: "e = ArrowEl (tline (currentToken st)) (tcolumn (currentToken st)) lab (nodeId toNode)"
      by (auto simp: parseArrow_def Let_def split: option.splits)
    from wp_parseNode [OF p w3] e show ?thesis by simp
  qed
qed

lemma wp_missingArrowError:
  "wellPlaced T st \<Longrightarrow> nodeAt T b \<Longrightarrow> isNode b \<Longrightarrow> wellPlaced T (missingArrowError a b st)"
  by (simp add: missingArrowError_def wp_addError_at nodeAt_def)

lemma wp_validateFlowchartConnections:
  "wellPlaced T st \<Longrightarrow> list_all (nodeAt T) nodes \<Longrightarrow>
     wellPlaced T (validateFlowchartConnections nodes st)"
proof (induction nodes st rule: validateFlowchartConnections.induct)
  case (1 a b rest st)
  then show ?case by (simp add: wp_missingArrowError del: validateFlowchartConnections.simps(2,3))
qed simp_all

lemma wp_flowchart_elements:
  "(\<forall>st r st1. parseFlowchartElement n st = Some (r, st1) \<longrightarrow> wellPlaced T st \<longrightarrow>
       wellPlaced T st1 \<and> (case r of Some e \<Rightarrow> nodeAt T e | None \<Rightarrow> True))
   \<and> (\<forall>st e st1. parseSubgraph n st = Some (e, st1) \<longrightarrow> wellPlaced T st \<longrightarrow>
       wellPlaced T st1 \<and> nodeAt T e)
   \<and> (\<forall>st cs cs1 st1. subgraph_loop n st cs = Some (cs1, st1) \<longrightarrow> wellPlaced T st \<longrightarrow>
       list_all (nodeAt T) cs \<longrightarrow> wellPlaced T st1 \<and> list_all (nodeAt T) cs1)"
proof (induction n)
  case 0
  show ?case by simp
next
  case (Suc n)
  have el: "wellPlaced T st1 \<and> (case r of Some e \<Rightarrow> nodeAt T e | None \<Rightarrow> True)"
    if a: "parseFlowchartElement (Suc n) st = Some (r, st1)" and w: "wellPlaced T st" for st r st1
  proof -
    from w have c: "currentToken st \<in> set T" by (rule wp_current)
    show ?thesis
    proof (cases "ttype (currentToken st) = SUBGRAPH \<and> \<not> isEndKeyword (currentToken st)
        \<and> tvalue (currentToken st) \<notin> {''classDef'', ''class'', ''linkStyle'', ''style'', ''click'',
             ''note'', ''direction'', ''title''}")
      case True
      with a obtain e where "parseSubgraph n st = Some (e, st1)" and "r = Some e"
        by (auto simp: Let_def split: option.splits)
      with Suc.IH w show ?thesis by auto
    next
      case False
      with a w c show ?thesis
        by (auto simp: Let_def processed_def wp split: if_splits option.splits
                 dest: wp_parseNode wp_parseArrow)
    qed
  qed
  have sg: "wellPlaced T st1 \<and> nodeAt T e"
    if a: "parseSubgraph (Suc n) st = Some (e, st1)" and w: "wellPlaced T st" for st e st1
  proof -
    let ?st2 = "advance (advance st)"
    let ?st3 = "if ttype (currentToken ?st2) = BRACKET_OPEN then
                   (let a = advance ?st2;
                        b = (if ttype (currentToken a) = STRING then advance a else a)
                    in if ttype (currentToken b) = BRACKET_CLOSE then advance b else b)
                 else ?st2"
    from w have w3: "wellPlaced T ?st3" by (simp add: Let_def wp)
    from a obtain children st4 where l: "subgraph_loop n ?st3 [] = Some (children, st4)"
      by (auto simp: Let_def split: option.splits)
    with Suc.IH w3 have w4: "wellPlaced T st4" and ch: "list_all (nodeAt T) children" by auto
    from a l w4 ch show ?thesis
      by (auto simp: Let_def wp wp_validateFlowchartConnections)
  qed
  have lp: "wellPlaced T st1 \<and> list_all (nodeAt T) cs1"
    if a: "subgraph_loop (Suc n) st cs = Some (cs1, st1)" and w: "wellPlaced T st"
      and c: "list_all (nodeAt T) cs" for st cs cs1 st1
  proof (cases "\<not> isAtEnd st \<and> \<not> isEndKeyword (currentToken st)")
    case True
    with a obtain child st2 where p: "parseFlowchartElement n st = Some (child, st2)"
      and l: "subgraph_loop n st2 (case child of Some e \<Rightarrow> cs @ [e] | None \<Rightarrow> cs) = Some (cs1, st1)"
      by (auto split: option.splits)
    from Suc.IH p w have w2: "wellPlaced T st2" and n: "case child of Some e \<Rightarrow> nodeAt T e | None \<Rightarrow> True"
      by auto
    from n c have "list_all (nodeAt T) (case child of Some e \<Rightarrow> cs @ [e] | None \<Rightarrow> cs)"
      by (cases child) simp_all
    with Suc.IH l w2 show ?thesis by blast
  next
    case False
    with a w c show ?thesis by auto
  qed
  from el sg lp show ?case by blast
qed

lemma wp_flowchart_loop:
  "flowchart_loop n st nodes = Some (nodes1, st1) \<Longrightarrow> wellPlaced T st \<Longrightarrow>
     list_all (nodeAt T) nodes \<Longrightarrow> wellPlaced T st1 \<and> list_all (nodeAt T) nodes1"
proof (induction n arbitrary: st nodes)
  case 0
  then show ?case by simp
next
  case (Suc n)
  show ?case
  proof (cases "\<not> isAtEnd st \<and> ttype (currentToken st) \<noteq> EOF
                 \<and> ttype (currentToken st) \<notin> set otherDiagramTypes")
    case True
    with Suc.prems(1) obtain r st2 where p: "parseFlowchartElement n st = Some (r, st2)"
      by (auto split: option.splits)
    from wp_flowchart_elements [of n T] p Suc.prems(2)
    have w2: "wellPlaced T st2" and n: "case r of Some e \<Rightarrow> nodeAt T e | None \<Rightarrow> True"
      by blast+
    show ?thesis
    proof (cases r)
      case None
      with Suc.prems(1) True p have "flowchart_loop n (advance st2) nodes = Some (nodes1, st1)"
        by simp
      from Suc.IH [OF this wp_advance [OF w2] Suc.prems(3)] show ?thesis .
    next
      case (Some e)
      show ?thesis
      proof (cases e)
        case (ProcessedEl l c)
        with Suc.prems(1) True p Some have "flowchart_loop n st2 nodes = Some (nodes1, st1)"
          by simp
        from Suc.IH [OF this w2 Suc.prems(3)] show ?thesis .
      next
        case (NodeEl l c i lab sh)
        with Suc.prems(1) True p Some have "flowchart_loop n st2 (nodes @ [e]) = Some (nodes1, st1)"
          by simp
        moreover from n Some Suc.prems(3) have "list_all (nodeAt T) (nodes @ [e])" by simp
        ultimately show ?thesis using Suc.IH w2 by blast
      next
        case (ArrowEl l c lab to)
        with Suc.prems(1) True p Some have "flowchart_loop n st2 (nodes @ [e]) = Some (nodes1, st1)"
          by simp
        moreover from n Some Suc.prems(3) have "list_all (nodeAt T) (nodes @ [e])" by simp
        ultimately show ?thesis using Suc.IH w2 by blast
      next
        case (SubgraphEl l c i ch)
        with Suc.prems(1) True p Some have "flowchart_loop n st2 (nodes @ [e]) = Some (nodes1, st1)"
          by simp
        moreover from n Some Suc.prems(3) have "list_all (nodeAt T) (nodes @ [e])" by simp
        ultimately show ?thesis using Suc.IH w2 by blast
      qed
    qed
  next
    case False
    with Suc.prems show ?thesis by (auto split: if_splits)
  qed
qed

lemma wp_parseFlowchart:
  assumes "parseFlowchart n st = Some (a, st1)" and "wellPlaced T st"
  shows "wellPlaced T st1"
proof -
  let ?st1 = "(advance st)\<lparr>linkCount := 0\<rparr>"
  let ?st2 = "if ttype (currentToken ?st1) = IDENTIFIER then advance ?st1 else ?st1"
  from assms(2) have w2: "wellPlaced T ?st2" by (simp add: wp)
  from assms(1) obtain nodes st3 where l: "flowchart_loop n ?st2 [] = Some (nodes, st3)"
    and s: "st1 = validateFlowchartConnections nodes st3"
    by (auto simp: parseFlowchart_def Let_def split: option.splits)
  from wp_flowchart_loop [OF l w2] have "wellPlaced T st3" "list_all (nodeAt T) nodes" by simp_all
  with s show ?thesis by (simp add: wp_validateFlowchartConnections)
qed


lemma wp_xAxis_loop:
  "xAxis_loop n st xs = Some (r, st1) \<Longrightarrow> wellPlaced T st \<Longrightarrow> wellPlaced T st1"
proof (induction n arbitrary: st xs)
  case 0
  then show ?case by simp
next
  case (Suc n)
  from Suc.prems show ?case
    by (auto simp: Let_def wp split: if_splits intro!: Suc.IH)
qed

lemma wp_values_loop:
  "values_loop n st vs = Some (r, st1) \<Longrightarrow> wellPlaced T st \<Longrightarrow> wellPlaced T st1"
proof (induction n arbitrary: st vs)
  case 0
  then show ?case by simp
next
  case (Suc n)
  from Suc.prems show ?case
    by (auto simp: Let_def wp split: if_splits intro!: Suc.IH)
qed

lemma wp_xychart_step:
  "xychart_step n st ch = Some (st1, ch1) \<Longrightarrow> wellPlaced T st \<Longrightarrow> wellPlaced T st1"
  by (auto simp: xychart_step_def Let_def wp split: if_splits option.splits
           dest: wp_xAxis_loop [OF _ wp_advance [OF wp_advance]]
                 wp_values_loop [OF _ wp_advance [OF wp_advance]])

lemma wp_xychart_loop:
  "xychart_loop n st ch = Some (st1, ch1) \<Longrightarrow> wellPlaced T st \<Longrightarrow> wellPlaced T st1"
proof (induction n arbitrary: st ch)
  case 0
  then show ?case by simp
next
  case (Suc n)
  from Suc.prems show ?case
    by (auto split: if_splits option.splits dest: wp_xychart_step intro: Suc.IH)
qed

lemma wp_validateXYChart: "wellPlaced T st \<Longrightarrow> wellPlaced T (validateXYChart d st)"
  by (simp add: validateXYChart_def wellPlaced_def addError_def okDiagnostic_def)

lemma wp_parseXYChart:
  "parseXYChart n st = Some (a, st1) \<Longrightarrow> wellPlaced T st \<Longrightarrow> wellPlaced T st1"
  by (auto simp: parseXYChart_def Let_def wp_validateXYChart split: option.splits
           dest: wp_xychart_loop [OF _ wp_advance])

lemma wp_parseToEnd_eq:
  "parseToEnd ty st = (a, st1) \<Longrightarrow> wellPlaced T st \<Longrightarrow> wellPlaced T st1"
  using wp_total_grammars(5) [of T st ty] by simp

lemma wp_parseDiagram:
  assumes "parseDiagram n st = Some (a, st1)" and "wellPlaced T st"
  shows "wellPlaced T st1"
proof -
  let ?st = "skipDirectives st"
  from assms(2) have w: "wellPlaced T ?st" by (rule wp_skipDirectives)
  have tot: "\<And>x. parseSequenceDiagram ?st = x \<Longrightarrow> wellPlaced T (snd x)"
    "\<And>x. parseClassDiagram ?st = x \<Longrightarrow> wellPlaced T (snd x)"
    "\<And>x. parseStateDiagram ?st = x \<Longrightarrow> wellPlaced T (snd x)"
    "\<And>x. parseBlockDiagram ?st = x \<Longrightarrow> wellPlaced T (snd x)"
    "\<And>ty x. parseToEnd ty ?st = x \<Longrightarrow> wellPlaced T (snd x)"
    using w by (auto simp: wp)
  have unk: "\<And>m c s. wellPlaced T (addError (currentToken ?st) m c s ?st)"
    using w by (simp add: wp)
  have fl: "\<And>x. parseFlowchart n ?st = Some x \<Longrightarrow> wellPlaced T (snd x)"
    using wp_parseFlowchart [OF _ w] by (cases "parseFlowchart n ?st") auto
  have xy: "\<And>x. parseXYChart n ?st = Some x \<Longrightarrow> wellPlaced T (snd x)"
    using wp_parseXYChart [OF _ w] by (cases "parseXYChart n ?st") auto
  from assms(1) tot unk fl xy show ?thesis
    unfolding parseDiagram_def Let_def parsePieChart_def parseJourney_def parseGitgraph_def
      parseMindmap_def parseTimeline_def parseGantt_def parseERDiagram_def
    by (auto split: if_splits dest: wp_parseToEnd_eq [OF _ w])
qed

lemma tokenize_last: "tokenize s \<noteq> [] \<and> ttype (last (tokenize s)) = EOF"
  by (simp add: tokenize_def case_prod_beta)

lemma parse_placed:
  assumes "parse n (Parser_new s) = Some r"
  shows "list_all (okDiagnostic (tokenize s)) (errors r)"
proof -
  let ?st = "(Parser_new s)\<lparr>perrors := [], position := 0, linkCount := 0\<rparr>"
  have w: "wellPlaced (tokenize s) ?st"
    by (simp add: wellPlaced_def Parser_new_def tokenize_last)
  from assms obtain a st1 where p: "parseDiagram n ?st = Some (a, st1)" and r: "errors r = perrors st1"
    by (auto simp: parse_def split: option.splits)
  from wp_parseDiagram [OF p w] r show ?thesis by (simp add: wellPlaced_def)
qed




end
